theory Spec2Isabelle
  imports Main
begin

section \<open>Python values and exceptions\<close>

text \<open>
  The two modules verified here are \<^verbatim>\<open>labs/lab02/shorten.py\<close> (the mapping store over a
  MySQL table) and \<^verbatim>\<open>projects/project02/client/photoapp.py\<close> (the retrying web-service
  client). Exceptions are values: every \<^verbatim>\<open>raise\<close> of the source, and every exception its
  library calls can throw, is a constructor of \<open>exn\<close>, and a call either returns or raises.
\<close>

datatype exn =
    AttributeError
  | DatabaseError
  | ConnectionError
  | Timeout
  | HTTPError string
  | RequestException string
  | ValueError string
  | KeyError string
  | TypeError
  | OSError

datatype 'a outcome = Returned 'a | Raised exn

section \<open>The mapping store: \<^verbatim>\<open>shorten.py\<close>\<close>

subsection \<open>The table and the connection\<close>

text \<open>
  \<^verbatim>\<open>LinksTable\<close> has the three columns the SQL text of the module names. A table state is
  the list of its rows. The key constraint of the schema (one row per \<^verbatim>\<open>ShortUrl\<close>) is not
  built into the type: it is the predicate \<open>keys_unique\<close> below, so that what the code does
  to keep it is visible.
\<close>

record link_row =
  ShortUrl :: string
  LongUrl :: string
  LookedUpCount :: int

type_synonym links_table = "link_row list"

definition keys_unique :: "links_table \<Rightarrow> bool" where
  "keys_unique tbl = distinct (map ShortUrl tbl)"

definition counts_nonneg :: "links_table \<Rightarrow> bool" where
  "counts_nonneg tbl = list_all (\<lambda>r. 0 \<le> LookedUpCount r) tbl"

text \<open>
  A connection as the server sees it: the committed table and the view of the open
  session, which holds the statements executed since the last commit or rollback.
\<close>

record connection =
  committed :: links_table
  pending :: links_table

text \<open>
  What can go wrong in a run. A database call named in the fault set \<open>F\<close> of a run
  raises \<open>DatabaseError\<close>; \<open>Execute k\<close> is the \<open>k\<close>-th \<^verbatim>\<open>execute\<close> of the operation,
  counted from 0. \<^verbatim>\<open>fetchone\<close> reads the result already held by the cursor and \<^verbatim>\<open>close\<close>
  releases the session; neither is a point of failure.

  A call that raises has had no effect on the committed table, with one exception: the
  server may apply a \<^verbatim>\<open>COMMIT\<close> and the reply be lost, so that \<^verbatim>\<open>commit()\<close> raises on a
  transaction that is durable. \<open>AppliedCommit\<close> in the fault set says that a failing
  commit is of this kind; it says nothing when \<open>Commit\<close> is not in the set. A statement
  whose reply is lost needs no such mark: its effect stays in the open transaction, which a
  failed body never commits.
\<close>

datatype db_fault = Connect | Begin | Cursor | Execute nat | Commit | Rollback | AppliedCommit

text \<open>
  \<^verbatim>\<open>get_dbConn\<close> catches every exception of \<^verbatim>\<open>pymysql.connect\<close> and of the configuration
  reader and returns \<^verbatim>\<open>None\<close> then (lines 36-64).
\<close>

definition get_dbConn :: "db_fault set \<Rightarrow> links_table \<Rightarrow> connection option" where
  "get_dbConn F tbl =
     (if Connect \<in> F then None else Some \<lparr>committed = tbl, pending = tbl\<rparr>)"

text \<open>
  A step of a \<^verbatim>\<open>try\<close> body runs on the variable \<^verbatim>\<open>dbConn\<close>, which is \<^verbatim>\<open>None\<close> or a
  connection, and returns a value or the exception raised, together with the connection
  as the step left it (the handler and the \<^verbatim>\<open>finally\<close> clause go on from there).
\<close>

type_synonym 'a db_step = "connection option \<Rightarrow> (exn + 'a) \<times> connection option"

definition db_then :: "'a db_step \<Rightarrow> ('a \<Rightarrow> 'b db_step) \<Rightarrow> 'b db_step" where
  "db_then m f dbConn =
     (case m dbConn of
        (Inl e, dbConn') \<Rightarrow> (Inl e, dbConn')
      | (Inr v, dbConn') \<Rightarrow> f v dbConn')"

definition db_return :: "'a \<Rightarrow> 'a db_step" where
  "db_return v dbConn = (Inr v, dbConn)"

text \<open>
  Modelled from the spec: \<^verbatim>\<open>pymysql\<close> is a library outside the repository. A method
  called on \<^verbatim>\<open>None\<close> raises \<^verbatim>\<open>AttributeError\<close> (Python); a call in the fault set raises a
  database error; otherwise the call has its effect. The effects follow section 4.3 of the
  specification: \<^verbatim>\<open>begin\<close> opens a transaction on the committed table, statements act on
  the session's view, \<^verbatim>\<open>commit\<close> makes the view the committed table, \<^verbatim>\<open>rollback\<close> drops
  it, and closing a session drops whatever it has not committed. \<open>method_call\<close> is the
  shape of every call but \<^verbatim>\<open>commit\<close>: when it raises, nothing has changed.
\<close>

definition method_call :: "db_fault set \<Rightarrow> db_fault \<Rightarrow> (connection \<Rightarrow> 'a \<times> connection) \<Rightarrow> 'a db_step" where
  "method_call F call effect dbConn =
     (case dbConn of
        None \<Rightarrow> (Inl AttributeError, None)
      | Some c \<Rightarrow>
          if call \<in> F then (Inl DatabaseError, Some c)
          else (case effect c of (v, c') \<Rightarrow> (Inr v, Some c')))"

definition conn_begin :: "db_fault set \<Rightarrow> unit db_step" where
  "conn_begin F = method_call F Begin (\<lambda>c. ((), c\<lparr>pending := committed c\<rparr>))"

definition conn_cursor :: "db_fault set \<Rightarrow> unit db_step" where
  "conn_cursor F = method_call F Cursor (\<lambda>c. ((), c))"

text \<open>
  Modelled from the spec: \<^verbatim>\<open>commit\<close> of \<^verbatim>\<open>pymysql\<close>. A commit that raises was either
  refused, and the committed table is as before, or applied by the server with its reply
  lost, and the committed table is the session's view.
\<close>

definition conn_commit :: "db_fault set \<Rightarrow> unit db_step" where
  "conn_commit F dbConn =
     (case dbConn of
        None \<Rightarrow> (Inl AttributeError, None)
      | Some c \<Rightarrow>
          if Commit \<in> F
          then (Inl DatabaseError,
                Some (if AppliedCommit \<in> F then c\<lparr>committed := pending c\<rparr> else c))
          else (Inr (), Some (c\<lparr>committed := pending c\<rparr>)))"

definition conn_rollback :: "db_fault set \<Rightarrow> unit db_step" where
  "conn_rollback F = method_call F Rollback (\<lambda>c. ((), c\<lparr>pending := committed c\<rparr>))"

definition conn_close :: "connection \<Rightarrow> links_table" where
  "conn_close c = committed c"

text \<open>A query returns its result rows; a data statement changes the session's view.\<close>

definition execute_query :: "db_fault set \<Rightarrow> nat \<Rightarrow> (links_table \<Rightarrow> 'a list) \<Rightarrow> 'a list db_step" where
  "execute_query F k q = method_call F (Execute k) (\<lambda>c. (q (pending c), c))"

definition execute_update :: "db_fault set \<Rightarrow> nat \<Rightarrow> (links_table \<Rightarrow> links_table) \<Rightarrow> unit db_step" where
  "execute_update F k u = method_call F (Execute k) (\<lambda>c. ((), c\<lparr>pending := u (pending c)\<rparr>))"

definition fetchone :: "'a list \<Rightarrow> 'a option" where
  "fetchone rows = (case rows of [] \<Rightarrow> None | row # _ \<Rightarrow> Some row)"

subsection \<open>The SQL statements of the module\<close>

text \<open>\<^verbatim>\<open>SELECT LongUrl FROM LinksTable WHERE ShortUrl = %s\<close> (lines 94 and 194).\<close>

definition select_longurl_sql :: "string \<Rightarrow> links_table \<Rightarrow> string list" where
  "select_longurl_sql shorturl tbl = map LongUrl (filter (\<lambda>r. ShortUrl r = shorturl) tbl)"

text \<open>\<^verbatim>\<open>UPDATE LinksTable SET LookedUpCount = LookedUpCount + 1 WHERE ShortUrl = %s\<close> (line 95).\<close>

definition update_sql :: "string \<Rightarrow> links_table \<Rightarrow> links_table" where
  "update_sql shorturl tbl =
     map (\<lambda>r. if ShortUrl r = shorturl then r\<lparr>LookedUpCount := LookedUpCount r + 1\<rparr> else r) tbl"

text \<open>\<^verbatim>\<open>SELECT LookedUpCount FROM LinksTable WHERE ShortUrl = %s\<close> (line 142).\<close>

definition select_count_sql :: "string \<Rightarrow> links_table \<Rightarrow> int list" where
  "select_count_sql shorturl tbl = map LookedUpCount (filter (\<lambda>r. ShortUrl r = shorturl) tbl)"

text \<open>
  \<^verbatim>\<open>INSERT INTO LinksTable (ShortUrl, LongUrl, LookedUpCount) VALUES(%s, %s, 0)\<close> (line 205).
  The statement is only reached after the check of line 197 found no row for the key, so a
  duplicate-key rejection by the server cannot occur in a run of the model.
\<close>

definition insert_sql :: "string \<Rightarrow> string \<Rightarrow> links_table \<Rightarrow> links_table" where
  "insert_sql shorturl longurl tbl =
     tbl @ [\<lparr>ShortUrl = shorturl, LongUrl = longurl, LookedUpCount = 0\<rparr>]"

text \<open>\<^verbatim>\<open>DELETE FROM LinksTable\<close> (line 245).\<close>

definition delete_sql :: "links_table \<Rightarrow> links_table" where
  "delete_sql tbl = []"

subsection \<open>The four operations\<close>

text \<open>
  Each operation is given the fault set of the run and the table the server holds, and
  returns what the caller sees (a value or an exception) and the table the server holds
  afterwards. The \<^verbatim>\<open>finally\<close> clause closes the connection when there is one.
\<close>

definition finally_close :: "links_table \<Rightarrow> 'a outcome \<Rightarrow> connection option \<Rightarrow> 'a outcome \<times> links_table" where
  "finally_close tbl out dbConn =
     (case dbConn of None \<Rightarrow> (out, tbl) | Some c \<Rightarrow> (out, conn_close c))"

text \<open>\<^verbatim>\<open>get_url\<close>, the \<^verbatim>\<open>try\<close> body after \<^verbatim>\<open>get_dbConn\<close> (lines 93-108).\<close>

definition get_url_try :: "db_fault set \<Rightarrow> string \<Rightarrow> string db_step" where
  "get_url_try F shorturl =
     db_then (conn_begin F) (\<lambda>_.
     db_then (conn_cursor F) (\<lambda>_.
     db_then (execute_update F 0 (update_sql shorturl)) (\<lambda>_.
     db_then (execute_query F 1 (select_longurl_sql shorturl)) (\<lambda>rows.
       let longurl = (case fetchone rows of Some row0 \<Rightarrow> row0 | None \<Rightarrow> '''') in
       db_then (conn_commit F) (\<lambda>_.
       db_return longurl)))))"

definition get_url :: "db_fault set \<Rightarrow> links_table \<Rightarrow> string \<Rightarrow> string outcome \<times> links_table" where
  "get_url F tbl shorturl =
     (case get_url_try F shorturl (get_dbConn F tbl) of
        (Inr longurl, dbConn) \<Rightarrow> finally_close tbl (Returned longurl) dbConn
      | (Inl err, dbConn) \<Rightarrow>
          (case conn_rollback F dbConn of
             (Inr _, dbConn') \<Rightarrow> finally_close tbl (Returned '''') dbConn'
           | (Inl err', dbConn') \<Rightarrow> finally_close tbl (Raised err') dbConn'))"

text \<open>\<^verbatim>\<open>get_stats\<close> (lines 140-159): no transaction, and a handler without rollback.\<close>

definition get_stats_try :: "db_fault set \<Rightarrow> string \<Rightarrow> int db_step" where
  "get_stats_try F shorturl =
     db_then (conn_cursor F) (\<lambda>_.
     db_then (execute_query F 0 (select_count_sql shorturl)) (\<lambda>rows.
       case fetchone rows of
         Some row0 \<Rightarrow> db_return row0
       | None \<Rightarrow> db_return (- 1)))"

definition get_stats :: "db_fault set \<Rightarrow> links_table \<Rightarrow> string \<Rightarrow> int outcome \<times> links_table" where
  "get_stats F tbl shorturl =
     (case get_stats_try F shorturl (get_dbConn F tbl) of
        (Inr n, dbConn) \<Rightarrow> finally_close tbl (Returned n) dbConn
      | (Inl err, dbConn) \<Rightarrow> finally_close tbl (Returned (- 1)) dbConn)"

text \<open>\<^verbatim>\<open>put_shorturl\<close> (lines 188-218).\<close>

definition put_shorturl_try :: "db_fault set \<Rightarrow> string \<Rightarrow> string \<Rightarrow> bool db_step" where
  "put_shorturl_try F longurl shorturl =
     db_then (conn_begin F) (\<lambda>_.
     db_then (conn_cursor F) (\<lambda>_.
     db_then (execute_query F 0 (select_longurl_sql shorturl)) (\<lambda>rows.
       case fetchone rows of
         Some row0 \<Rightarrow>
           if row0 = longurl
           then db_then (conn_commit F) (\<lambda>_. db_return True)
           else db_then (conn_commit F) (\<lambda>_. db_return False)
       | None \<Rightarrow>
           db_then (execute_update F 1 (insert_sql shorturl longurl)) (\<lambda>_.
           db_then (conn_commit F) (\<lambda>_.
           db_return True)))))"

definition put_shorturl :: "db_fault set \<Rightarrow> links_table \<Rightarrow> string \<Rightarrow> string \<Rightarrow> bool outcome \<times> links_table" where
  "put_shorturl F tbl longurl shorturl =
     (case put_shorturl_try F longurl shorturl (get_dbConn F tbl) of
        (Inr ok, dbConn) \<Rightarrow> finally_close tbl (Returned ok) dbConn
      | (Inl err, dbConn) \<Rightarrow>
          (case conn_rollback F dbConn of
             (Inr _, dbConn') \<Rightarrow> finally_close tbl (Returned False) dbConn'
           | (Inl err', dbConn') \<Rightarrow> finally_close tbl (Raised err') dbConn'))"

text \<open>\<^verbatim>\<open>put_reset\<close> (lines 240-258).\<close>

definition put_reset_try :: "db_fault set \<Rightarrow> bool db_step" where
  "put_reset_try F =
     db_then (conn_begin F) (\<lambda>_.
     db_then (conn_cursor F) (\<lambda>_.
     db_then (execute_update F 0 delete_sql) (\<lambda>_.
     db_then (conn_commit F) (\<lambda>_.
     db_return True))))"

definition put_reset :: "db_fault set \<Rightarrow> links_table \<Rightarrow> bool outcome \<times> links_table" where
  "put_reset F tbl =
     (case put_reset_try F (get_dbConn F tbl) of
        (Inr ok, dbConn) \<Rightarrow> finally_close tbl (Returned ok) dbConn
      | (Inl err, dbConn) \<Rightarrow>
          (case conn_rollback F dbConn of
             (Inr _, dbConn') \<Rightarrow> finally_close tbl (Returned False) dbConn'
           | (Inl err', dbConn') \<Rightarrow> finally_close tbl (Raised err') dbConn'))"

subsection \<open>The operations as one step function\<close>

text \<open>
  A caller of the module does one of four things. \<open>run_op\<close> is the step function of the
  store: the operation called, on the table the server holds, under the fault set of the
  call.
\<close>

datatype store_op = GetUrl string | GetStats string | PutShorturl string string | PutReset

datatype store_value = Url string | Count int | Ok bool

definition lift_outcome :: "('a \<Rightarrow> 'b) \<Rightarrow> 'a outcome \<times> links_table \<Rightarrow> 'b outcome \<times> links_table" where
  "lift_outcome f r =
     (case r of
        (Returned v, tbl) \<Rightarrow> (Returned (f v), tbl)
      | (Raised e, tbl) \<Rightarrow> (Raised e, tbl))"

fun run_op :: "db_fault set \<Rightarrow> links_table \<Rightarrow> store_op \<Rightarrow> store_value outcome \<times> links_table" where
  "run_op F tbl (GetUrl shorturl) = lift_outcome Url (get_url F tbl shorturl)"
| "run_op F tbl (GetStats shorturl) = lift_outcome Count (get_stats F tbl shorturl)"
| "run_op F tbl (PutShorturl longurl shorturl) = lift_outcome Ok (put_shorturl F tbl longurl shorturl)"
| "run_op F tbl PutReset = lift_outcome Ok (put_reset F tbl)"

text \<open>A sequence of calls, each under its own fault set, from a given table.\<close>

fun run_ops :: "(db_fault set \<times> store_op) list \<Rightarrow> links_table \<Rightarrow> links_table" where
  "run_ops [] tbl = tbl"
| "run_ops ((F, op) # calls) tbl = run_ops calls (snd (run_op F tbl op))"

section \<open>The web-service client: \<^verbatim>\<open>photoapp.py\<close>\<close>

subsection \<open>Values, responses, requests\<close>

text \<open>
  The values that cross the API: what \<^verbatim>\<open>response.json()\<close> returns, what the operations
  take and return. A dictionary is the list of its items, each key once, read with
  \<open>map_of\<close>; numbers are integers, as in the wire format.
\<close>

datatype pyval =
    PNone
  | PBool bool
  | PInt int
  | PStr string
  | PList "pyval list"
  | PTuple "pyval list"
  | PDict "(string \<times> pyval) list"

text \<open>
  A response carries its status code and its body, already decoded: \<open>None\<close> when the body
  is not JSON text, the case in which \<^verbatim>\<open>response.json()\<close> raises.
\<close>

record response =
  status_code :: int
  json_body :: "pyval option"

record request =
  http_method :: string
  url :: string
  params :: "(string \<times> pyval) list"
  json :: "pyval option"

text \<open>
  One call of \<^verbatim>\<open>requests.get\<close>, \<^verbatim>\<open>requests.post\<close> or \<^verbatim>\<open>requests.delete\<close> answers with a
  response or raises. The transport of a run says which, for each request, by the number of
  requests made before it.
\<close>

datatype transport_result = Responded response | Failed exn

type_synonym transport = "nat \<Rightarrow> request \<Rightarrow> transport_result"

datatype fs_node = Directory | Regular string

text \<open>
  The state the client runs in: the module variable set by \<^verbatim>\<open>initialize\<close>, the local
  files, and the requests made so far.
\<close>

record world =
  WEB_SERVICE_URL :: string
  files :: "string \<Rightarrow> fs_node option"
  sent :: "request list"

text \<open>
  Library and operating-system functions whose results the client carries through but
  never inspects are parameters of the model: the text Python prints for a list, tuple or
  dictionary, the base64 codec, the message \<^verbatim>\<open>raise_for_status\<close> builds, and
  \<^verbatim>\<open>open(name, 'wb')\<close> followed by the write, which gives the files afterwards or the
  exception raised (a missing directory, a name that is a directory, a bad descriptor,
  missing rights).
\<close>

record py_runtime =
  repr_container :: "pyval \<Rightarrow> string"
  b64encode :: "string \<Rightarrow> string"
  b64decode :: "pyval \<Rightarrow> exn + string"
  http_error_message :: "response \<Rightarrow> string"
  write_file :: "(string \<Rightarrow> fs_node option) \<Rightarrow> pyval \<Rightarrow> string \<Rightarrow> exn + (string \<Rightarrow> fs_node option)"

subsection \<open>Python operations the client uses\<close>

definition and_then :: "exn + 'a \<Rightarrow> ('a \<Rightarrow> exn + 'b) \<Rightarrow> exn + 'b" where
  "and_then m f = (case m of Inl e \<Rightarrow> Inl e | Inr v \<Rightarrow> f v)"

definition to_outcome :: "exn + 'a \<Rightarrow> 'a outcome" where
  "to_outcome m = (case m of Inl e \<Rightarrow> Raised e | Inr v \<Rightarrow> Returned v)"

definition digit_char :: "nat \<Rightarrow> char" where
  "digit_char d = ''0123456789'' ! d"

function str_nat :: "nat \<Rightarrow> string" where
  "str_nat n = (if n < 10 then [digit_char n] else str_nat (n div 10) @ [digit_char (n mod 10)])"
  by pat_completeness auto
termination
  by (relation "measure id") auto

definition str_int :: "int \<Rightarrow> string" where
  "str_int i = (if i < 0 then CHR ''-'' # str_nat (nat (- i)) else str_nat (nat i))"

text \<open>\<^verbatim>\<open>str(v)\<close>, as an f-string renders a value.\<close>

fun py_str :: "py_runtime \<Rightarrow> pyval \<Rightarrow> string" where
  "py_str rt (PStr s) = s"
| "py_str rt (PInt i) = str_int i"
| "py_str rt PNone = ''None''"
| "py_str rt (PBool b) = (if b then ''True'' else ''False'')"
| "py_str rt v = repr_container rt v"

text \<open>
  \<^verbatim>\<open>v[key]\<close> with a string key: a dictionary gives the value or raises \<^verbatim>\<open>KeyError\<close>;
  every other value raises \<^verbatim>\<open>TypeError\<close>.
\<close>

fun subscript :: "pyval \<Rightarrow> string \<Rightarrow> exn + pyval" where
  "subscript (PDict items) key =
     (case map_of items key of Some v \<Rightarrow> Inr v | None \<Rightarrow> Inl (KeyError key))"
| "subscript v key = Inl TypeError"

text \<open>\<^verbatim>\<open>for row in rows\<close>: the elements the loop visits, or \<^verbatim>\<open>TypeError\<close>.\<close>

fun iterate :: "pyval \<Rightarrow> exn + pyval list" where
  "iterate (PList xs) = Inr xs"
| "iterate (PTuple xs) = Inr xs"
| "iterate (PDict items) = Inr (map (\<lambda>kv. PStr (fst kv)) items)"
| "iterate (PStr s) = Inr (map (\<lambda>c. PStr [c]) s)"
| "iterate v = Inl TypeError"

text \<open>
  The loops of lines 227-234, 313-320, 544-547 and 629-633 build one tuple per row from the
  named fields, in order, and stop at the first field that cannot be read.
\<close>

fun row_fields :: "pyval \<Rightarrow> string list \<Rightarrow> exn + pyval list" where
  "row_fields row [] = Inr []"
| "row_fields row (key # keys) =
     and_then (subscript row key) (\<lambda>v.
     and_then (row_fields row keys) (\<lambda>vs. Inr (v # vs)))"

fun rows_to_tuples :: "string list \<Rightarrow> pyval list \<Rightarrow> exn + pyval list" where
  "rows_to_tuples keys [] = Inr []"
| "rows_to_tuples keys (row # rows) =
     and_then (row_fields row keys) (\<lambda>vs.
     and_then (rows_to_tuples keys rows) (\<lambda>tuples. Inr (PTuple vs # tuples)))"

definition collect_rows :: "string list \<Rightarrow> pyval \<Rightarrow> exn + pyval" where
  "collect_rows keys rows =
     and_then (iterate rows) (\<lambda>xs.
     and_then (rows_to_tuples keys xs) (\<lambda>tuples. Inr (PList tuples)))"

text \<open>\<^verbatim>\<open>str.isspace\<close> on the code points below 256, and \<^verbatim>\<open>str.strip()\<close>.\<close>

definition isspace :: "char \<Rightarrow> bool" where
  "isspace c = (of_char c \<in> {9, 10, 11, 12, 13, 28, 29, 30, 31, 32, 133, 160 :: nat})"

definition strip :: "string \<Rightarrow> string" where
  "strip s = rev (dropWhile isspace (rev (dropWhile isspace s)))"

definition isfile :: "(string \<Rightarrow> fs_node option) \<Rightarrow> string \<Rightarrow> bool" where
  "isfile fs path = (case fs path of Some (Regular bytes) \<Rightarrow> True | _ \<Rightarrow> False)"

definition basename :: "string \<Rightarrow> string" where
  "basename path = rev (takeWhile (\<lambda>c. c \<noteq> CHR ''/'') (rev path))"

text \<open>\<^verbatim>\<open>open(filename, 'rb').read()\<close>.\<close>

definition read_file :: "(string \<Rightarrow> fs_node option) \<Rightarrow> string \<Rightarrow> exn + string" where
  "read_file fs path = (case fs path of Some (Regular bytes) \<Rightarrow> Inr bytes | _ \<Rightarrow> Inl OSError)"

subsection \<open>Helpers of the module\<close>

text \<open>\<^verbatim>\<open>_validate_local_filename\<close> (lines 26-36).\<close>

definition validate_local_filename :: "(string \<Rightarrow> fs_node option) \<Rightarrow> pyval \<Rightarrow> exn + string" where
  "validate_local_filename fs local_filename =
     (case local_filename of
        PNone \<Rightarrow> Inl (ValueError ''local_filename is required'')
      | PStr name \<Rightarrow>
          if strip name = '''' then Inl (ValueError ''local_filename cannot be empty'')
          else if \<not> isfile fs name then Inl (ValueError ''local_filename does not exist or is not a file'')
          else Inr name
      | _ \<Rightarrow> Inl AttributeError)"

text \<open>\<^verbatim>\<open>_build_url\<close> (lines 39-41).\<close>

definition build_url :: "world \<Rightarrow> string \<Rightarrow> string" where
  "build_url w path = rev (dropWhile (\<lambda>c. c = CHR ''/'') (rev (WEB_SERVICE_URL w))) @ path"

text \<open>\<^verbatim>\<open>_safe_json\<close> (lines 44-49).\<close>

definition safe_json :: "response \<Rightarrow> exn + pyval" where
  "safe_json resp =
     (case json_body resp of
        Some body \<Rightarrow> Inr body
      | None \<Rightarrow> Inl (HTTPError (''status code '' @ str_int (status_code resp) @ '': invalid JSON response'')))"

text \<open>\<^verbatim>\<open>f"status code {response.status_code}: {msg}"\<close>.\<close>

definition err_msg :: "py_runtime \<Rightarrow> response \<Rightarrow> pyval \<Rightarrow> string" where
  "err_msg rt resp msg = ''status code '' @ str_int (status_code resp) @ '': '' @ py_str rt msg"

text \<open>
  \<^verbatim>\<open>response.raise_for_status()\<close>: \<^verbatim>\<open>HTTPError\<close> for a status from 400 to 599, nothing
  otherwise.
\<close>

definition raise_for_status :: "py_runtime \<Rightarrow> response \<Rightarrow> exn + unit" where
  "raise_for_status rt resp =
     (if 400 \<le> status_code resp \<and> status_code resp < 600
      then Inl (HTTPError (http_error_message rt resp)) else Inr ())"

definition requests_call :: "transport \<Rightarrow> request \<Rightarrow> world \<Rightarrow> (exn + response) \<times> world" where
  "requests_call net req w =
     (case net (length (sent w)) req of
        Responded resp \<Rightarrow> (Inr resp, w\<lparr>sent := sent w @ [req]\<rparr>)
      | Failed e \<Rightarrow> (Inl e, w\<lparr>sent := sent w @ [req]\<rparr>))"

subsection \<open>The operations, one attempt each\<close>

text \<open>
  Each function below is the body of the decorated function of the same name: one attempt.
  The handlers of the source log and re-raise, and logging is not modelled.
\<close>

text \<open>
  The shape shared by \<^verbatim>\<open>get_ping\<close>, \<^verbatim>\<open>get_users\<close>, \<^verbatim>\<open>get_images\<close>, \<^verbatim>\<open>post_image\<close>
  and \<^verbatim>\<open>delete_images\<close> after the request: decode the body, then the result on status
  200 and \<^verbatim>\<open>HTTPError\<close> with the server's message otherwise.
\<close>

definition body_then :: "py_runtime \<Rightarrow> (pyval \<Rightarrow> exn + pyval) \<Rightarrow> response \<Rightarrow> exn + pyval" where
  "body_then rt on_success resp =
     and_then (safe_json resp) (\<lambda>body.
       if status_code resp = 200 then on_success body
       else and_then (subscript body ''message'') (\<lambda>msg. Inl (HTTPError (err_msg rt resp msg))))"

definition get_ping :: "py_runtime \<Rightarrow> transport \<Rightarrow> world \<Rightarrow> pyval outcome \<times> world" where
  "get_ping rt net w =
     (case requests_call net
             \<lparr>http_method = ''GET'', url = build_url w ''/ping'', params = [], json = None\<rparr> w of
        (r, w') \<Rightarrow>
          (to_outcome (and_then r (body_then rt (\<lambda>body.
             and_then (subscript body ''M'') (\<lambda>M.
             and_then (subscript body ''N'') (\<lambda>N. Inr (PTuple [M, N])))))), w'))"

definition get_users :: "py_runtime \<Rightarrow> transport \<Rightarrow> world \<Rightarrow> pyval outcome \<times> world" where
  "get_users rt net w =
     (case requests_call net
             \<lparr>http_method = ''GET'', url = build_url w ''/users'', params = [], json = None\<rparr> w of
        (r, w') \<Rightarrow>
          (to_outcome (and_then r (body_then rt (\<lambda>body.
             and_then (subscript body ''data'') (\<lambda>rows.
             collect_rows [''userid'', ''username'', ''givenname'', ''familyname''] rows)))), w'))"

definition get_images :: "py_runtime \<Rightarrow> transport \<Rightarrow> pyval \<Rightarrow> world \<Rightarrow> pyval outcome \<times> world" where
  "get_images rt net userid w =
     (case requests_call net
             \<lparr>http_method = ''GET'', url = build_url w ''/images'',
              params = (if userid \<noteq> PNone then [(''userid'', userid)] else []), json = None\<rparr> w of
        (r, w') \<Rightarrow>
          (to_outcome (and_then r (body_then rt (\<lambda>body.
             and_then (subscript body ''data'') (\<lambda>rows.
             collect_rows [''assetid'', ''userid'', ''localname'', ''bucketkey''] rows)))), w'))"

definition post_image :: "py_runtime \<Rightarrow> transport \<Rightarrow> pyval \<Rightarrow> pyval \<Rightarrow> world \<Rightarrow> pyval outcome \<times> world" where
  "post_image rt net userid local_filename w =
     (let url = build_url w (''/image/'' @ py_str rt userid) in
      case and_then (validate_local_filename (files w) local_filename) (\<lambda>filename.
           and_then (read_file (files w) filename) (\<lambda>image_bytes.
             Inr (PDict [(''local_filename'', PStr (basename filename)),
                         (''data'', PStr (b64encode rt image_bytes))]))) of
        Inl e \<Rightarrow> (Raised e, w)
      | Inr data \<Rightarrow>
          (case requests_call net
                  \<lparr>http_method = ''POST'', url = url, params = [], json = Some data\<rparr> w of
             (r, w') \<Rightarrow>
               (to_outcome (and_then r (body_then rt (\<lambda>body. subscript body ''assetid''))), w')))"

definition get_image :: "py_runtime \<Rightarrow> transport \<Rightarrow> pyval \<Rightarrow> pyval \<Rightarrow> world \<Rightarrow> pyval outcome \<times> world" where
  "get_image rt net assetid local_filename w =
     (case requests_call net
             \<lparr>http_method = ''GET'', url = build_url w (''/image/'' @ py_str rt assetid),
              params = [], json = None\<rparr> w of
        (Inl e, w') \<Rightarrow> (Raised e, w')
      | (Inr resp, w') \<Rightarrow>
          if status_code resp = 200 then
            (case and_then (safe_json resp) (\<lambda>body.
                  and_then (subscript body ''local_filename'') (\<lambda>original_filename.
                  and_then (subscript body ''data'') (\<lambda>image_base64.
                  and_then (b64decode rt image_base64) (\<lambda>image_bytes.
                    let filename_to_save =
                          (if local_filename \<noteq> PNone then local_filename else original_filename)
                    in and_then (write_file rt (files w') filename_to_save image_bytes) (\<lambda>fs'.
                       Inr (filename_to_save, fs')))))) of
               Inl e \<Rightarrow> (Raised e, w')
             | Inr (filename_to_save, fs') \<Rightarrow> (Returned filename_to_save, w'\<lparr>files := fs'\<rparr>))
          else if status_code resp \<in> {400, 500} then
            (to_outcome (and_then (safe_json resp) (\<lambda>body.
               and_then (subscript body ''message'') (\<lambda>msg.
               Inl (ValueError (err_msg rt resp msg))))), w')
          else
            (to_outcome (and_then (raise_for_status rt resp) (\<lambda>_. Inr PNone)), w'))"

text \<open>
  The shape shared by \<^verbatim>\<open>get_image_labels\<close> and \<^verbatim>\<open>get_images_with_label\<close> (lines 535-566
  and 620-652).
\<close>

definition labels_response :: "py_runtime \<Rightarrow> string list \<Rightarrow> response \<Rightarrow> exn + pyval" where
  "labels_response rt keys resp =
     (if status_code resp = 200 then
        and_then (safe_json resp) (\<lambda>body.
        and_then (subscript body ''data'') (\<lambda>rows. collect_rows keys rows))
      else if status_code resp = 400 then
        and_then (safe_json resp) (\<lambda>body.
        and_then (subscript body ''message'') (\<lambda>msg. Inl (ValueError (py_str rt msg))))
      else if status_code resp = 500 then
        and_then (safe_json resp) (\<lambda>body.
        and_then (subscript body ''message'') (\<lambda>msg. Inl (HTTPError (err_msg rt resp msg))))
      else
        and_then (raise_for_status rt resp) (\<lambda>_. Inr PNone))"

definition get_image_labels :: "py_runtime \<Rightarrow> transport \<Rightarrow> pyval \<Rightarrow> world \<Rightarrow> pyval outcome \<times> world" where
  "get_image_labels rt net assetid w =
     (case requests_call net
             \<lparr>http_method = ''GET'', url = build_url w ''/image_labels'',
              params = [(''assetid'', assetid)], json = None\<rparr> w of
        (r, w') \<Rightarrow>
          (to_outcome (and_then r (labels_response rt [''label'', ''confidence''])), w'))"

definition get_images_with_label :: "py_runtime \<Rightarrow> transport \<Rightarrow> pyval \<Rightarrow> world \<Rightarrow> pyval outcome \<times> world" where
  "get_images_with_label rt net label w =
     (case requests_call net
             \<lparr>http_method = ''GET'', url = build_url w ''/images_with_label'',
              params = [(''label'', label)], json = None\<rparr> w of
        (r, w') \<Rightarrow>
          (to_outcome (and_then r (labels_response rt [''assetid'', ''label'', ''confidence''])), w'))"

definition delete_images :: "py_runtime \<Rightarrow> transport \<Rightarrow> world \<Rightarrow> pyval outcome \<times> world" where
  "delete_images rt net w =
     (case requests_call net
             \<lparr>http_method = ''DELETE'', url = build_url w ''/images'', params = [], json = None\<rparr> w of
        (r, w') \<Rightarrow>
          (to_outcome (and_then r (body_then rt (\<lambda>body. Inr (PBool True)))), w'))"

subsection \<open>The retry decorator\<close>

text \<open>
  Every operation carries the same decorator (lines 117-121, 184-188, 267-271, 350-354,
  419-423, 498-502, 581-585, 667-671):
  \<^verbatim>\<open>@retry(stop=stop_after_attempt(3), wait=wait_exponential(multiplier=1, min=2, max=30),
  retry=retry_if_exception_type((ConnectionError, Timeout)), reraise=True)\<close>.
\<close>

text \<open>\<^verbatim>\<open>retry_if_exception_type((ConnectionError, Timeout))\<close>.\<close>

fun retry_if_exception_type :: "exn \<Rightarrow> bool" where
  "retry_if_exception_type ConnectionError = True"
| "retry_if_exception_type Timeout = True"
| "retry_if_exception_type e = False"

text \<open>
  Modelled from the spec: \<^verbatim>\<open>tenacity\<close> is a library outside the repository.
  \<^verbatim>\<open>stop_after_attempt(n)\<close> stops once the attempt just made has number \<open>n\<close> or more
  (section 4.1: the operation is called up to \<open>maxAttempts\<close> times).
\<close>

definition stop_after_attempt :: "nat \<Rightarrow> nat \<Rightarrow> bool" where
  "stop_after_attempt max_attempt_number attempt_number = (max_attempt_number \<le> attempt_number)"

text \<open>
  Modelled from the spec: \<^verbatim>\<open>tenacity\<close>'s \<^verbatim>\<open>wait_exponential\<close> is outside the repository.
  Section 4.1 describes the backoff as exponential, doubling, with a multiplier, a floor and
  a ceiling; the library computes, for the attempt just made (numbered from 1),
  \<^verbatim>\<open>max(max(0, min), min(multiplier * 2 ** (attempt_number - 1), max))\<close>.
\<close>

definition wait_exponential :: "int \<Rightarrow> int \<Rightarrow> int \<Rightarrow> nat \<Rightarrow> int" where
  "wait_exponential multiplier min_wait max_wait attempt_number =
     max (max 0 min_wait) (min (multiplier * 2 ^ (attempt_number - 1)) max_wait)"

text \<open>
  What a decorated call did: its result, the number of attempts made and the delays slept
  between them, in order.
\<close>

record run =
  result :: "pyval outcome"
  attempts :: nat
  sleeps :: "int list"

text \<open>
  Modelled from the spec: the retry loop of \<^verbatim>\<open>tenacity\<close>, as section 4.1 states it. The
  function is called; a result is returned; an exception the retry predicate rejects is
  raised at once; a retryable exception is raised when the stop condition holds
  (\<^verbatim>\<open>reraise=True\<close>: the last exception itself); otherwise the loop sleeps for the wait of
  the attempt just made and calls again.
\<close>

function retry_loop :: "(world \<Rightarrow> pyval outcome \<times> world) \<Rightarrow> nat \<Rightarrow> int list \<Rightarrow> world \<Rightarrow> run \<times> world" where
  "retry_loop fn attempt_number slept w =
     (case fn w of
        (Returned v, w') \<Rightarrow>
          (\<lparr>result = Returned v, attempts = attempt_number, sleeps = slept\<rparr>, w')
      | (Raised e, w') \<Rightarrow>
          if \<not> retry_if_exception_type e
          then (\<lparr>result = Raised e, attempts = attempt_number, sleeps = slept\<rparr>, w')
          else if stop_after_attempt 3 attempt_number
          then (\<lparr>result = Raised e, attempts = attempt_number, sleeps = slept\<rparr>, w')
          else retry_loop fn (attempt_number + 1)
                 (slept @ [wait_exponential 1 2 30 attempt_number]) w')"
  by pat_completeness auto
termination
  by (relation "measure (\<lambda>(fn, attempt_number, slept, w). 3 - attempt_number)")
     (auto simp: stop_after_attempt_def)

definition retry :: "(world \<Rightarrow> pyval outcome \<times> world) \<Rightarrow> world \<Rightarrow> run \<times> world" where
  "retry fn w = retry_loop fn 1 [] w"

subsection \<open>The decorated operations\<close>

datatype api_call =
    GetPing
  | GetUsers
  | GetImages pyval
  | PostImage pyval pyval
  | GetImage pyval pyval
  | GetImageLabels pyval
  | GetImagesWithLabel pyval
  | DeleteImages

fun attempt :: "py_runtime \<Rightarrow> transport \<Rightarrow> api_call \<Rightarrow> world \<Rightarrow> pyval outcome \<times> world" where
  "attempt rt net GetPing = get_ping rt net"
| "attempt rt net GetUsers = get_users rt net"
| "attempt rt net (GetImages userid) = get_images rt net userid"
| "attempt rt net (PostImage userid local_filename) = post_image rt net userid local_filename"
| "attempt rt net (GetImage assetid local_filename) = get_image rt net assetid local_filename"
| "attempt rt net (GetImageLabels assetid) = get_image_labels rt net assetid"
| "attempt rt net (GetImagesWithLabel label) = get_images_with_label rt net label"
| "attempt rt net DeleteImages = delete_images rt net"

definition call_api :: "py_runtime \<Rightarrow> transport \<Rightarrow> api_call \<Rightarrow> world \<Rightarrow> run \<times> world" where
  "call_api rt net c w = retry (attempt rt net c) w"

text \<open>
  For the examples below: a server that gives the same answer to every request, a network
  on which every request fails, a machine without files, and a runtime. On the one file
  content the examples use, the empty one, base64 text and bytes coincide; no example
  writes a file, and the runtime is one on which no file can be written.
\<close>

definition answering :: "response \<Rightarrow> transport" where
  "answering resp n req = Responded resp"

definition failing :: "exn \<Rightarrow> transport" where
  "failing e n req = Failed e"

definition no_files :: "string \<Rightarrow> fs_node option" where
  "no_files path = None"

definition example_runtime :: py_runtime where
  "example_runtime =
     \<lparr>repr_container = (\<lambda>v. ''''),
      b64encode = (\<lambda>bytes. bytes),
      b64decode = (\<lambda>v. case v of PStr s \<Rightarrow> Inr s | _ \<Rightarrow> Inl TypeError),
      http_error_message = (\<lambda>resp. str_int (status_code resp)),
      write_file = (\<lambda>fs name bytes. Inl OSError)\<rparr>"

section \<open>Properties of the mapping store\<close>

subsection \<open>What each operation does, by fault set\<close>

lemmas db_defs = get_dbConn_def db_then_def db_return_def method_call_def conn_begin_def
  conn_cursor_def conn_commit_def conn_rollback_def conn_close_def execute_query_def
  execute_update_def finally_close_def

lemma fetchone_map_filter: "fetchone (map f (filter P xs)) = map_option f (find P xs)"
  by (induction xs) (auto simp: fetchone_def)

lemma find_update_sql:
  "find (\<lambda>r. ShortUrl r = s) (update_sql s tbl) =
     map_option (\<lambda>r. r\<lparr>LookedUpCount := LookedUpCount r + 1\<rparr>) (find (\<lambda>r. ShortUrl r = s) tbl)"
  by (induction tbl) (auto simp: update_sql_def)

lemma get_stats_eq:
  "get_stats F tbl s =
     (Returned (if F \<inter> {Connect, Cursor, Execute 0} = {}
                then (case find (\<lambda>r. ShortUrl r = s) tbl of Some r \<Rightarrow> LookedUpCount r | None \<Rightarrow> - 1)
                else - 1), tbl)"
  by (simp add: get_stats_def get_stats_try_def db_defs fetchone_map_filter select_count_sql_def
      split: option.splits)

lemma get_url_ok:
  "F \<inter> {Connect, Begin, Cursor, Execute 0, Execute 1, Commit} = {} \<Longrightarrow>
   get_url F tbl s =
     (Returned (case find (\<lambda>r. ShortUrl r = s) tbl of Some r \<Rightarrow> LongUrl r | None \<Rightarrow> ''''),
      update_sql s tbl)"
  by (simp add: get_url_def get_url_try_def db_defs fetchone_map_filter select_longurl_sql_def
      find_update_sql split: option.splits)

lemma get_url_fail:
  "F \<inter> {Connect, Begin, Cursor, Execute 0, Execute 1, Commit} \<noteq> {} \<Longrightarrow>
   get_url F tbl s =
     (if Connect \<in> F then Raised AttributeError
      else if Rollback \<in> F then Raised DatabaseError else Returned '''',
      if F \<inter> {Connect, Begin, Cursor, Execute 0, Execute 1} = {} \<and> AppliedCommit \<in> F
      then update_sql s tbl else tbl)"
  by (auto simp add: get_url_def get_url_try_def db_defs split: option.splits)

lemma put_shorturl_eq:
  "put_shorturl F tbl l s =
    (if Connect \<in> F then (Raised AttributeError, tbl)
     else if F \<inter> {Begin, Cursor, Execute 0} \<noteq> {}
       then (if Rollback \<in> F then Raised DatabaseError else Returned False, tbl)
     else (case find (\<lambda>r. ShortUrl r = s) tbl of
             Some r \<Rightarrow>
               (if Commit \<in> F then (if Rollback \<in> F then Raised DatabaseError else Returned False)
                else Returned (LongUrl r = l), tbl)
           | None \<Rightarrow>
               if Execute 1 \<in> F
               then (if Rollback \<in> F then Raised DatabaseError else Returned False, tbl)
               else if Commit \<in> F
               then (if Rollback \<in> F then Raised DatabaseError else Returned False,
                     if AppliedCommit \<in> F then insert_sql s l tbl else tbl)
               else (Returned True, insert_sql s l tbl)))"
  by (auto simp add: put_shorturl_def put_shorturl_try_def db_defs fetchone_map_filter
      select_longurl_sql_def split: option.splits)

lemma put_reset_eq:
  "put_reset F tbl =
    (if Connect \<in> F then (Raised AttributeError, tbl)
     else if F \<inter> {Begin, Cursor, Execute 0} \<noteq> {}
       then (if Rollback \<in> F then Raised DatabaseError else Returned False, tbl)
     else if Commit \<in> F
       then (if Rollback \<in> F then Raised DatabaseError else Returned False,
             if AppliedCommit \<in> F then [] else tbl)
     else (Returned True, []))"
  by (auto simp add: put_reset_def put_reset_try_def db_defs delete_sql_def)

text \<open>
  With a connection and a working rollback, the handlers do absorb every failure: the
  operations return, and return their failure value when a call of the body failed.
\<close>

lemma failures_absorbed_with_connection:
  assumes "Connect \<notin> F" "Rollback \<notin> F"
  shows "(F \<inter> {Begin, Cursor, Execute 0, Execute 1, Commit} \<noteq> {} \<longrightarrow>
            fst (get_url F tbl s) = Returned []) \<and>
         (\<exists>ok. fst (put_shorturl F tbl l s) = Returned ok) \<and>
         (F \<inter> {Begin, Cursor, Execute 0, Commit} \<noteq> {} \<longrightarrow>
            fst (put_reset F tbl) = Returned False)"
proof -
  have "fst (get_url F tbl s) = Returned []"
    if "F \<inter> {Begin, Cursor, Execute 0, Execute 1, Commit} \<noteq> {}"
  proof -
    from that have "F \<inter> {Connect, Begin, Cursor, Execute 0, Execute 1, Commit} \<noteq> {}"
      by auto
    from get_url_fail [OF this, of tbl s] show ?thesis
      using assms by simp
  qed
  moreover have "\<exists>ok. fst (put_shorturl F tbl l s) = Returned ok"
    using assms by (auto simp: put_shorturl_eq split: option.splits)
  moreover have "fst (put_reset F tbl) = Returned False"
    if "F \<inter> {Begin, Cursor, Execute 0, Commit} \<noteq> {}"
    using that assms by (auto simp: put_reset_eq)
  ultimately show ?thesis by blast
qed

subsection \<open>Rows and keys\<close>

lemma find_key_unique:
  assumes "keys_unique tbl" "r \<in> set tbl"
  shows "find (\<lambda>x. ShortUrl x = ShortUrl r) tbl = Some r"
  using assms
proof (induction tbl)
  case Nil
  then show ?case by simp
next
  case (Cons a tbl)
  then show ?case by (auto simp: keys_unique_def)
qed

lemma find_key_absent:
  "(find (\<lambda>x. ShortUrl x = s) tbl = None) = (s \<notin> ShortUrl ` set tbl)"
  by (auto simp: find_None_iff)

lemma find_after_insert:
  "s \<notin> ShortUrl ` set tbl \<Longrightarrow>
   find (\<lambda>x. ShortUrl x = s) (insert_sql s l tbl) =
     Some \<lparr>ShortUrl = s, LongUrl = l, LookedUpCount = 0\<rparr>"
  by (induction tbl) (auto simp: insert_sql_def)

lemma filter_after_insert:
  "s \<notin> ShortUrl ` set tbl \<Longrightarrow>
   filter (\<lambda>x. ShortUrl x = s) (insert_sql s l tbl) =
     [\<lparr>ShortUrl = s, LongUrl = l, LookedUpCount = 0\<rparr>]"
  by (induction tbl) (auto simp: insert_sql_def)

lemma same_key_same_row:
  assumes "keys_unique tbl" "r \<in> set tbl" "r' \<in> set tbl" "ShortUrl r' = ShortUrl r"
  shows "r' = r"
proof -
  have "inj_on ShortUrl (set tbl)"
    using assms(1) by (simp add: keys_unique_def distinct_map)
  then show ?thesis using assms(2-4) by (auto dest: inj_onD)
qed

lemma update_sql_row:
  assumes "keys_unique tbl" "r \<in> set tbl" "r' \<in> set (update_sql s tbl)" "ShortUrl r' = ShortUrl r"
  shows "r' = (if ShortUrl r = s then r\<lparr>LookedUpCount := LookedUpCount r + 1\<rparr> else r)"
proof -
  from assms(3) obtain r0 where r0: "r0 \<in> set tbl"
    and r': "r' = (if ShortUrl r0 = s then r0\<lparr>LookedUpCount := LookedUpCount r0 + 1\<rparr> else r0)"
    by (auto simp: update_sql_def)
  from r' have "ShortUrl r' = ShortUrl r0" by (simp split: if_splits)
  with assms(4) have "ShortUrl r0 = ShortUrl r" by simp
  with assms(1,2) r0 have "r0 = r" by (rule same_key_same_row)
  with r' show ?thesis by simp
qed

lemma keys_unique_update_sql: "keys_unique (update_sql s tbl) = keys_unique tbl"
proof -
  have "map ShortUrl (update_sql s tbl) = map ShortUrl tbl"
    by (induction tbl) (simp_all add: update_sql_def)
  then show ?thesis by (simp add: keys_unique_def)
qed

lemma counts_nonneg_update_sql: "counts_nonneg tbl \<Longrightarrow> counts_nonneg (update_sql s tbl)"
  by (induction tbl) (simp_all add: update_sql_def counts_nonneg_def)

lemma keys_unique_insert_sql:
  "keys_unique tbl \<Longrightarrow> s \<notin> ShortUrl ` set tbl \<Longrightarrow> keys_unique (insert_sql s l tbl)"
  by (auto simp: keys_unique_def insert_sql_def)

lemma counts_nonneg_insert_sql: "counts_nonneg tbl \<Longrightarrow> counts_nonneg (insert_sql s l tbl)"
  by (simp add: counts_nonneg_def insert_sql_def)

subsection \<open>The table after a call\<close>

lemma get_url_table:
  "snd (get_url F tbl s) = tbl \<or>
   (snd (get_url F tbl s) = update_sql s tbl \<and>
    (fst (get_url F tbl s) =
       Returned (case find (\<lambda>r. ShortUrl r = s) tbl of Some r \<Rightarrow> LongUrl r | None \<Rightarrow> '''') \<or>
     Commit \<in> F \<and> AppliedCommit \<in> F))"
proof (cases "F \<inter> {Connect, Begin, Cursor, Execute 0, Execute 1, Commit} = {}")
  case True
  from get_url_ok [OF this, of tbl s] show ?thesis by simp
next
  case False
  show ?thesis
    using False get_url_fail [OF False, of tbl s] by auto
qed

lemma put_shorturl_table:
  "snd (put_shorturl F tbl l s) = tbl \<or>
   (s \<notin> ShortUrl ` set tbl \<and> snd (put_shorturl F tbl l s) = insert_sql s l tbl)"
  by (auto simp: put_shorturl_eq find_key_absent[symmetric] split: option.splits)

lemma put_reset_table: "snd (put_reset F tbl) = tbl \<or> snd (put_reset F tbl) = []"
  by (simp add: put_reset_eq)

lemma get_stats_table: "snd (get_stats F tbl s) = tbl"
  by (simp add: get_stats_eq)

lemma lift_outcome_snd: "snd (lift_outcome f r) = snd r"
  by (cases r; cases "fst r") (auto simp: lift_outcome_def split: outcome.splits)

lemma lift_outcome_fst: "fst r = Returned v \<Longrightarrow> fst (lift_outcome f r) = Returned (f v)"
  by (cases r) (simp add: lift_outcome_def)

lemma lift_outcome_Returned: "lift_outcome f (Returned v, t) = (Returned (f v), t)"
  by (simp add: lift_outcome_def)

lemma run_op_well_formed:
  assumes "keys_unique tbl" "counts_nonneg tbl"
  shows "keys_unique (snd (run_op F tbl op)) \<and> counts_nonneg (snd (run_op F tbl op))"
proof (cases op)
  case (GetUrl s)
  then show ?thesis
    using assms get_url_table [of F tbl s]
    by (auto simp: lift_outcome_snd keys_unique_update_sql counts_nonneg_update_sql)
next
  case (GetStats s)
  then show ?thesis using assms by (simp add: lift_outcome_snd get_stats_table)
next
  case (PutShorturl l s)
  then show ?thesis
    using assms put_shorturl_table [of F tbl l s]
    by (auto simp: lift_outcome_snd keys_unique_insert_sql counts_nonneg_insert_sql)
next
  case PutReset
  then show ?thesis
    using assms put_reset_table [of F tbl]
    by (auto simp: lift_outcome_snd keys_unique_def counts_nonneg_def)
qed

text \<open>
  Every table the operations can produce from the empty table has one row per key and
  counters at least 0, whatever fails on the way: the two conditions on table states used
  below hold of every state the store reaches.
\<close>

lemma reachable_well_formed:
  "keys_unique tbl \<Longrightarrow> counts_nonneg tbl \<Longrightarrow>
   keys_unique (run_ops calls tbl) \<and> counts_nonneg (run_ops calls tbl)"
proof (induction calls arbitrary: tbl)
  case Nil
  then show ?case by simp
next
  case (Cons call calls)
  obtain F op where call: "call = (F, op)" by (cases call)
  from Cons.prems have "keys_unique (snd (run_op F tbl op)) \<and> counts_nonneg (snd (run_op F tbl op))"
    by (rule run_op_well_formed)
  then show ?case using Cons.IH call by simp
qed

lemma reachable_from_empty:
  "keys_unique (run_ops calls []) \<and> counts_nonneg (run_ops calls [])"
  by (rule reachable_well_formed) (simp_all add: keys_unique_def counts_nonneg_def)

subsection \<open>Claims about the mapping store\<close>

text \<open>
  C1. Claimed: whatever database failure occurs, failure to obtain a connection included,
  \<^verbatim>\<open>get_url\<close> returns the empty string, \<^verbatim>\<open>put_shorturl\<close> and \<^verbatim>\<open>put_reset\<close> return
  \<^verbatim>\<open>False\<close> and \<^verbatim>\<open>get_stats\<close> returns -1, and no exception reaches the caller. The code
  does not do so when \<^verbatim>\<open>get_dbConn\<close> returns \<^verbatim>\<open>None\<close>: the first method call on \<^verbatim>\<open>None\<close>
  raises, the handler is entered, and the handler's own \<^verbatim>\<open>dbConn.rollback()\<close> raises
  \<^verbatim>\<open>AttributeError\<close> out of the function. \<^verbatim>\<open>get_stats\<close>, whose handler has no rollback,
  returns -1 on the same input. The theorem evaluates the four operations with no
  connection, on a table of one row.
\<close>

theorem no_connection_raises_out_of_handler:
  "get_url {Connect} [\<lparr>ShortUrl = ''abc'', LongUrl = ''http://example.com'', LookedUpCount = 0\<rparr>] ''abc''
     = (Raised AttributeError,
        [\<lparr>ShortUrl = ''abc'', LongUrl = ''http://example.com'', LookedUpCount = 0\<rparr>]) \<and>
   put_shorturl {Connect} [\<lparr>ShortUrl = ''abc'', LongUrl = ''http://example.com'', LookedUpCount = 0\<rparr>]
       ''http://example.com'' ''abc''
     = (Raised AttributeError,
        [\<lparr>ShortUrl = ''abc'', LongUrl = ''http://example.com'', LookedUpCount = 0\<rparr>]) \<and>
   put_reset {Connect} [\<lparr>ShortUrl = ''abc'', LongUrl = ''http://example.com'', LookedUpCount = 0\<rparr>]
     = (Raised AttributeError,
        [\<lparr>ShortUrl = ''abc'', LongUrl = ''http://example.com'', LookedUpCount = 0\<rparr>]) \<and>
   get_stats {Connect} [\<lparr>ShortUrl = ''abc'', LongUrl = ''http://example.com'', LookedUpCount = 0\<rparr>] ''abc''
     = (Returned (- 1),
        [\<lparr>ShortUrl = ''abc'', LongUrl = ''http://example.com'', LookedUpCount = 0\<rparr>])"
  by (simp add: get_url_def get_url_try_def put_shorturl_def put_shorturl_try_def put_reset_def
      put_reset_try_def get_stats_def get_stats_try_def db_defs)

text \<open>
  C2, as claimed, fails when the reply to \<^verbatim>\<open>COMMIT\<close> is lost. The server has applied the
  transaction, \<^verbatim>\<open>dbConn.commit()\<close> of line 107 raises, the handler runs, and the call
  fails with the counter up by one: it raises when the handler's rollback fails on the
  broken connection, and returns the empty string when the rollback goes through.
\<close>

theorem get_url_fails_after_applied_commit:
  "get_url {Commit, AppliedCommit, Rollback}
     [\<lparr>ShortUrl = ''abc'', LongUrl = ''http://example.com'', LookedUpCount = 0\<rparr>] ''abc''
     = (Raised DatabaseError,
        [\<lparr>ShortUrl = ''abc'', LongUrl = ''http://example.com'', LookedUpCount = 1\<rparr>]) \<and>
   get_url {Commit, AppliedCommit}
     [\<lparr>ShortUrl = ''abc'', LongUrl = ''http://example.com'', LookedUpCount = 0\<rparr>] ''abc''
     = (Returned '''',
        [\<lparr>ShortUrl = ''abc'', LongUrl = ''http://example.com'', LookedUpCount = 1\<rparr>])"
  by (simp add: get_url_def get_url_try_def db_defs update_sql_def select_longurl_sql_def
      fetchone_def)

text \<open>
  C2, amended. When no database call of \<^verbatim>\<open>get_url\<close> fails, it returns the long URL of the
  key (the empty string when the key is absent) and the counter of the key's row has gone
  up by exactly one, every other row being as before. When some call fails, the caller gets
  no URL, and the table is exactly as before the call unless the failing call is the
  \<^verbatim>\<open>COMMIT\<close> itself, applied by the server before it raised: then the increment, of
  exactly one, is durable. So the table differs after the call only by that one increment,
  and only when the lookup was returned or its commit was applied.
\<close>

theorem get_url_increment_follows_commit:
  "(F \<inter> {Connect, Begin, Cursor, Execute 0, Execute 1, Commit} = {} \<longrightarrow>
      get_url F tbl s =
        (Returned (case find (\<lambda>r. ShortUrl r = s) tbl of Some r \<Rightarrow> LongUrl r | None \<Rightarrow> ''''),
         map (\<lambda>r. if ShortUrl r = s then r\<lparr>LookedUpCount := LookedUpCount r + 1\<rparr> else r) tbl)) \<and>
   (F \<inter> {Connect, Begin, Cursor, Execute 0, Execute 1, Commit} \<noteq> {} \<longrightarrow>
      fst (get_url F tbl s) \<in> {Returned '''', Raised AttributeError, Raised DatabaseError} \<and>
      snd (get_url F tbl s) =
        (if F \<inter> {Connect, Begin, Cursor, Execute 0, Execute 1} = {} \<and> AppliedCommit \<in> F
         then map (\<lambda>r. if ShortUrl r = s then r\<lparr>LookedUpCount := LookedUpCount r + 1\<rparr> else r) tbl
         else tbl)) \<and>
   (snd (get_url F tbl s) \<noteq> tbl \<longrightarrow>
      snd (get_url F tbl s) =
        map (\<lambda>r. if ShortUrl r = s then r\<lparr>LookedUpCount := LookedUpCount r + 1\<rparr> else r) tbl \<and>
      (fst (get_url F tbl s) =
         Returned (case find (\<lambda>r. ShortUrl r = s) tbl of Some r \<Rightarrow> LongUrl r | None \<Rightarrow> '''') \<or>
       Commit \<in> F \<and> AppliedCommit \<in> F))"
proof (cases "F \<inter> {Connect, Begin, Cursor, Execute 0, Execute 1, Commit} = {}")
  case True
  show ?thesis
    using True get_url_ok [OF True, of tbl s] by (simp add: update_sql_def)
next
  case False
  show ?thesis
    using False get_url_fail [OF False, of tbl s] by (auto simp: update_sql_def)
qed

theorem get_url_increment_follows_commit_witness:
  "get_url {} [\<lparr>ShortUrl = ''abc'', LongUrl = ''http://example.com'', LookedUpCount = 0\<rparr>] ''abc''
     = (Returned ''http://example.com'',
        [\<lparr>ShortUrl = ''abc'', LongUrl = ''http://example.com'', LookedUpCount = 1\<rparr>]) \<and>
   get_url {Commit} [\<lparr>ShortUrl = ''abc'', LongUrl = ''http://example.com'', LookedUpCount = 0\<rparr>] ''abc''
     = (Returned '''',
        [\<lparr>ShortUrl = ''abc'', LongUrl = ''http://example.com'', LookedUpCount = 0\<rparr>]) \<and>
   snd (get_url {Execute 1, AppliedCommit}
      [\<lparr>ShortUrl = ''abc'', LongUrl = ''http://example.com'', LookedUpCount = 0\<rparr>] ''abc'')
     = [\<lparr>ShortUrl = ''abc'', LongUrl = ''http://example.com'', LookedUpCount = 0\<rparr>]"
  using get_url_increment_follows_commit [of "{}"
      "[\<lparr>ShortUrl = ''abc'', LongUrl = ''http://example.com'', LookedUpCount = 0\<rparr>]" "''abc''"]
    get_url_increment_follows_commit [of "{Commit}"
      "[\<lparr>ShortUrl = ''abc'', LongUrl = ''http://example.com'', LookedUpCount = 0\<rparr>]" "''abc''"]
    get_url_increment_follows_commit [of "{Execute 1, AppliedCommit}"
      "[\<lparr>ShortUrl = ''abc'', LongUrl = ''http://example.com'', LookedUpCount = 0\<rparr>]" "''abc''"]
  by (simp add: get_url_def get_url_try_def db_defs update_sql_def select_longurl_sql_def fetchone_def)

text \<open>
  C3. \<^verbatim>\<open>put_shorturl\<close> is idempotent. On a table without the key, with no database call
  failing, the first call returns \<^verbatim>\<open>True\<close>, a second call with the same pair returns
  \<^verbatim>\<open>True\<close> and writes nothing, and the table then holds exactly one row for the key, with
  the given long URL and counter 0.
\<close>

theorem put_shorturl_idempotent:
  assumes "shorturl \<notin> ShortUrl ` set tbl"
    and "F1 \<inter> {Connect, Begin, Cursor, Execute 0, Execute 1, Commit} = {}"
    and "F2 \<inter> {Connect, Begin, Cursor, Execute 0, Commit} = {}"
  shows "fst (put_shorturl F1 tbl longurl shorturl) = Returned True \<and>
         fst (put_shorturl F2 (snd (put_shorturl F1 tbl longurl shorturl)) longurl shorturl)
           = Returned True \<and>
         snd (put_shorturl F2 (snd (put_shorturl F1 tbl longurl shorturl)) longurl shorturl)
           = snd (put_shorturl F1 tbl longurl shorturl) \<and>
         filter (\<lambda>r. ShortUrl r = shorturl)
            (snd (put_shorturl F2 (snd (put_shorturl F1 tbl longurl shorturl)) longurl shorturl))
           = [\<lparr>ShortUrl = shorturl, LongUrl = longurl, LookedUpCount = 0\<rparr>]"
proof -
  have none: "find (\<lambda>r. ShortUrl r = shorturl) tbl = None"
    using assms(1) by (simp add: find_key_absent)
  have first: "put_shorturl F1 tbl longurl shorturl = (Returned True, insert_sql shorturl longurl tbl)"
    using assms(2) none by (simp add: put_shorturl_eq)
  have second: "put_shorturl F2 (insert_sql shorturl longurl tbl) longurl shorturl
      = (Returned True, insert_sql shorturl longurl tbl)"
    using assms(3) find_after_insert[OF assms(1), of longurl] by (simp add: put_shorturl_eq)
  show ?thesis
    using first second filter_after_insert[OF assms(1), of longurl] by simp
qed

theorem put_shorturl_idempotent_witness:
  "''abc'' \<notin> ShortUrl ` set [] \<and>
   fst (put_shorturl {} [] ''http://example.com'' ''abc'') = Returned True \<and>
   fst (put_shorturl {} (snd (put_shorturl {} [] ''http://example.com'' ''abc''))
          ''http://example.com'' ''abc'') = Returned True \<and>
   snd (put_shorturl {} (snd (put_shorturl {} [] ''http://example.com'' ''abc''))
          ''http://example.com'' ''abc'')
     = [\<lparr>ShortUrl = ''abc'', LongUrl = ''http://example.com'', LookedUpCount = 0\<rparr>]"
proof -
  have absent: "''abc'' \<notin> ShortUrl ` set []" by simp
  have healthy: "{} \<inter> {Connect, Begin, Cursor, Execute 0, Execute 1, Commit} = {}" by simp
  have healthy': "{} \<inter> {Connect, Begin, Cursor, Execute 0, Commit} = {}" by simp
  have first: "snd (put_shorturl {} [] ''http://example.com'' ''abc'')
      = [\<lparr>ShortUrl = ''abc'', LongUrl = ''http://example.com'', LookedUpCount = 0\<rparr>]"
    by (simp add: put_shorturl_def put_shorturl_try_def db_defs select_longurl_sql_def
        fetchone_def insert_sql_def)
  show ?thesis
    using put_shorturl_idempotent [OF absent healthy healthy', of "''http://example.com''"] first
    by simp
qed

text \<open>
  C4. When the table (one row per key) holds a row for the key with another long URL,
  \<^verbatim>\<open>put_shorturl\<close> leaves the table exactly as it was, under every fault set, and returns
  \<^verbatim>\<open>False\<close>: through the check of line 201 when no call fails, and through the handler
  when a call fails after the connection was obtained and the rollback goes through.
\<close>

theorem put_shorturl_taken_key:
  assumes "keys_unique tbl" and "r \<in> set tbl" and "longurl \<noteq> LongUrl r"
  shows "snd (put_shorturl F tbl longurl (ShortUrl r)) = tbl \<and>
         (F \<inter> {Connect, Begin, Cursor, Execute 0, Commit} = {} \<longrightarrow>
            fst (put_shorturl F tbl longurl (ShortUrl r)) = Returned False) \<and>
         (Connect \<notin> F \<and> Rollback \<notin> F \<longrightarrow>
            fst (put_shorturl F tbl longurl (ShortUrl r)) = Returned False)"
proof -
  have "find (\<lambda>x. ShortUrl x = ShortUrl r) tbl = Some r"
    using assms(1,2) by (rule find_key_unique)
  then show ?thesis
    using assms(3) by (auto simp: put_shorturl_eq)
qed

theorem put_shorturl_taken_key_witness:
  "put_shorturl {} [\<lparr>ShortUrl = ''abc'', LongUrl = ''http://example.com'', LookedUpCount = 1\<rparr>]
      ''http://other.com'' ''abc''
     = (Returned False,
        [\<lparr>ShortUrl = ''abc'', LongUrl = ''http://example.com'', LookedUpCount = 1\<rparr>])"
proof -
  have uniq: "keys_unique [\<lparr>ShortUrl = ''abc'', LongUrl = ''http://example.com'', LookedUpCount = 1\<rparr>]"
    by (simp add: keys_unique_def)
  have row: "\<lparr>ShortUrl = ''abc'', LongUrl = ''http://example.com'', LookedUpCount = 1\<rparr>
      \<in> set [\<lparr>ShortUrl = ''abc'', LongUrl = ''http://example.com'', LookedUpCount = 1\<rparr>]"
    by simp
  have other: "''http://other.com''
      \<noteq> LongUrl \<lparr>ShortUrl = ''abc'', LongUrl = ''http://example.com'', LookedUpCount = 1\<rparr>"
    by simp
  show ?thesis
    using put_shorturl_taken_key [OF uniq row other, of "{}"]
    by (simp add: prod_eq_iff)
qed

text \<open>
  C9, as claimed, fails in its last part when the reply to \<^verbatim>\<open>COMMIT\<close> is lost: the
  counter of the row goes from 0 to 1 in a call of \<^verbatim>\<open>get_url\<close> that does not succeed (it
  returns the empty string, the rollback of the handler going through).
\<close>

theorem counter_rises_in_failed_get_url:
  "run_op {Commit, AppliedCommit}
     [\<lparr>ShortUrl = ''abc'', LongUrl = ''http://example.com'', LookedUpCount = 0\<rparr>] (GetUrl ''abc'')
     = (Returned (Url ''''),
        [\<lparr>ShortUrl = ''abc'', LongUrl = ''http://example.com'', LookedUpCount = 1\<rparr>])"
  by (simp add: lift_outcome_def get_url_def get_url_try_def db_defs update_sql_def
      select_longurl_sql_def fetchone_def)

text \<open>
  C9, amended. Every operation of the store, under every fault set, keeps the rows it does
  not delete: on a table with one row per key and counters at least 0, a row that is there
  before and after the call has the same long URL and a counter that is at least 0 and has
  not gone down. The counter has gone up only if the call was \<^verbatim>\<open>get_url\<close> of that key,
  then by exactly one, and the call either returned the row's long URL or failed on a
  \<^verbatim>\<open>COMMIT\<close> that the server had applied. The table after the call again has one row per
  key and counters at least 0.
\<close>

theorem store_invariant:
  assumes uniq: "keys_unique tbl" and nonneg: "counts_nonneg tbl"
    and r: "r \<in> set tbl" and r': "r' \<in> set (snd (run_op F tbl op))"
    and key: "ShortUrl r' = ShortUrl r"
  shows "LongUrl r' = LongUrl r \<and> 0 \<le> LookedUpCount r \<and> LookedUpCount r \<le> LookedUpCount r' \<and>
         (LookedUpCount r < LookedUpCount r' \<longrightarrow>
            op = GetUrl (ShortUrl r) \<and> LookedUpCount r' = LookedUpCount r + 1 \<and>
            (fst (run_op F tbl op) = Returned (Url (LongUrl r)) \<or>
             Commit \<in> F \<and> AppliedCommit \<in> F)) \<and>
         keys_unique (snd (run_op F tbl op)) \<and> counts_nonneg (snd (run_op F tbl op))"
proof -
  have r0: "0 \<le> LookedUpCount r"
    using nonneg r by (simp add: counts_nonneg_def list_all_iff)
  have same: "?thesis" if "snd (run_op F tbl op) = tbl"
  proof -
    from r' that have "r' \<in> set tbl" by simp
    with uniq r key have "r' = r" by (simp add: same_key_same_row)
    with that uniq nonneg r0 show ?thesis by simp
  qed
  show ?thesis
  proof (cases op)
    case (GetUrl s)
    from get_url_table[of F tbl s] show ?thesis
    proof
      assume "snd (get_url F tbl s) = tbl"
      then show ?thesis using GetUrl by (intro same) (simp add: lift_outcome_snd)
    next
      assume ok: "snd (get_url F tbl s) = update_sql s tbl \<and>
        (fst (get_url F tbl s) =
           Returned (case find (\<lambda>r. ShortUrl r = s) tbl of Some r \<Rightarrow> LongUrl r | None \<Rightarrow> '''') \<or>
         Commit \<in> F \<and> AppliedCommit \<in> F)"
      then have tbl': "snd (run_op F tbl op) = update_sql s tbl"
        using GetUrl by (simp add: lift_outcome_snd)
      have res: "fst (run_op F tbl op) =
          Returned (Url (case find (\<lambda>r. ShortUrl r = s) tbl of Some r \<Rightarrow> LongUrl r | None \<Rightarrow> '''')) \<or>
          Commit \<in> F \<and> AppliedCommit \<in> F"
        using ok GetUrl by (auto simp: lift_outcome_fst)
      from r' tbl' have "r' \<in> set (update_sql s tbl)" by simp
      then have row: "r' = (if ShortUrl r = s then r\<lparr>LookedUpCount := LookedUpCount r + 1\<rparr> else r)"
        using update_sql_row[OF uniq r _ key] by simp
      show ?thesis
      proof (cases "ShortUrl r = s")
        case True
        with uniq r have "find (\<lambda>x. ShortUrl x = s) tbl = Some r"
          using find_key_unique[of tbl r] by simp
        with tbl' res row True r0 GetUrl uniq nonneg show ?thesis
          by (auto simp: keys_unique_update_sql counts_nonneg_update_sql)
      next
        case False
        with tbl' row r0 uniq nonneg show ?thesis
          by (simp add: keys_unique_update_sql counts_nonneg_update_sql)
      qed
    qed
  next
    case (GetStats s)
    then show ?thesis by (intro same) (simp add: lift_outcome_snd get_stats_table)
  next
    case (PutShorturl l s)
    from put_shorturl_table[of F tbl l s] show ?thesis
    proof
      assume "snd (put_shorturl F tbl l s) = tbl"
      then show ?thesis using PutShorturl by (intro same) (simp add: lift_outcome_snd)
    next
      assume ins: "s \<notin> ShortUrl ` set tbl \<and> snd (put_shorturl F tbl l s) = insert_sql s l tbl"
      then have tbl': "snd (run_op F tbl op) = insert_sql s l tbl"
        using PutShorturl by (simp add: lift_outcome_snd)
      from ins r have "ShortUrl r \<noteq> s" by auto
      with r' tbl' key have "r' \<in> set tbl" by (auto simp: insert_sql_def)
      with uniq r key have "r' = r" by (simp add: same_key_same_row)
      with tbl' ins uniq nonneg r0 show ?thesis
        by (simp add: keys_unique_insert_sql counts_nonneg_insert_sql)
    qed
  next
    case PutReset
    from put_reset_table[of F tbl] show ?thesis
    proof
      assume "snd (put_reset F tbl) = tbl"
      then show ?thesis using PutReset by (intro same) (simp add: lift_outcome_snd)
    next
      assume "snd (put_reset F tbl) = []"
      with r' PutReset show ?thesis by (simp add: lift_outcome_snd)
    qed
  qed
qed

theorem store_invariant_witness:
  "LookedUpCount \<lparr>ShortUrl = ''abc'', LongUrl = ''http://example.com'', LookedUpCount = 1\<rparr>
     = LookedUpCount \<lparr>ShortUrl = ''abc'', LongUrl = ''http://example.com'', LookedUpCount = 0\<rparr> + 1 \<and>
   fst (run_op {} [\<lparr>ShortUrl = ''abc'', LongUrl = ''http://example.com'', LookedUpCount = 0\<rparr>]
          (GetUrl ''abc'')) = Returned (Url ''http://example.com'') \<and>
   keys_unique (snd (run_op {} [\<lparr>ShortUrl = ''abc'', LongUrl = ''http://example.com'', LookedUpCount = 0\<rparr>]
          (GetUrl ''abc'')))"
proof -
  let ?r = "\<lparr>ShortUrl = ''abc'', LongUrl = ''http://example.com'', LookedUpCount = 0\<rparr>"
  let ?r' = "\<lparr>ShortUrl = ''abc'', LongUrl = ''http://example.com'', LookedUpCount = 1\<rparr>"
  have uniq: "keys_unique [?r]" by (simp add: keys_unique_def)
  have nonneg: "counts_nonneg [?r]" by (simp add: counts_nonneg_def)
  have r: "?r \<in> set [?r]" by simp
  have run: "run_op {} [?r] (GetUrl ''abc'') = (Returned (Url ''http://example.com''), [?r'])"
    by (simp add: lift_outcome_def get_url_def get_url_try_def db_defs update_sql_def
        select_longurl_sql_def fetchone_def)
  have r': "?r' \<in> set (snd (run_op {} [?r] (GetUrl ''abc'')))" unfolding run by simp
  have key: "ShortUrl ?r' = ShortUrl ?r" by simp
  show ?thesis
    using store_invariant [OF uniq nonneg r r' key] by simp
qed

text \<open>
  C10. \<^verbatim>\<open>get_stats\<close> never changes the table and never raises. With no database call
  failing it returns the counter stored for the key when the table (one row per key) has a
  row for it, and -1 when it has none; when a call fails, the connection included, it
  returns -1 as well, the value it returns for an absent key.
\<close>

theorem get_stats_counter_or_sentinel:
  "snd (get_stats F tbl s) = tbl \<and>
   (F \<inter> {Connect, Cursor, Execute 0} = {} \<and> keys_unique tbl \<and> r \<in> set tbl \<longrightarrow>
      fst (get_stats F tbl (ShortUrl r)) = Returned (LookedUpCount r)) \<and>
   (F \<inter> {Connect, Cursor, Execute 0} = {} \<and> s \<notin> ShortUrl ` set tbl \<longrightarrow>
      fst (get_stats F tbl s) = Returned (- 1)) \<and>
   (F \<inter> {Connect, Cursor, Execute 0} \<noteq> {} \<longrightarrow>
      fst (get_stats F tbl s) = Returned (- 1) \<and>
      fst (get_stats F tbl s) = fst (get_stats {} [] s))"
proof -
  have "fst (get_stats F tbl (ShortUrl r)) = Returned (LookedUpCount r)"
    if "F \<inter> {Connect, Cursor, Execute 0} = {}" "keys_unique tbl" "r \<in> set tbl"
    using that find_key_unique[of tbl r] by (simp add: get_stats_eq)
  moreover have "fst (get_stats F tbl s) = Returned (- 1)"
    if "F \<inter> {Connect, Cursor, Execute 0} = {}" "s \<notin> ShortUrl ` set tbl"
  proof -
    have "find (\<lambda>x. ShortUrl x = s) tbl = None"
      using that(2) by (simp add: find_key_absent)
    then show ?thesis by (simp add: get_stats_eq)
  qed
  moreover have "fst (get_stats F tbl s) = Returned (- 1) \<and>
      fst (get_stats F tbl s) = fst (get_stats {} [] s)"
    if "F \<inter> {Connect, Cursor, Execute 0} \<noteq> {}"
    using that by (auto simp: get_stats_eq)
  ultimately show ?thesis
    using get_stats_table [of F tbl s] by blast
qed

theorem get_stats_counter_or_sentinel_witness:
  "get_stats {} [\<lparr>ShortUrl = ''abc'', LongUrl = ''http://example.com'', LookedUpCount = 7\<rparr>] ''abc''
     = (Returned 7, [\<lparr>ShortUrl = ''abc'', LongUrl = ''http://example.com'', LookedUpCount = 7\<rparr>]) \<and>
   get_stats {} [\<lparr>ShortUrl = ''abc'', LongUrl = ''http://example.com'', LookedUpCount = 7\<rparr>] ''xyz''
     = (Returned (- 1), [\<lparr>ShortUrl = ''abc'', LongUrl = ''http://example.com'', LookedUpCount = 7\<rparr>]) \<and>
   get_stats {Execute 0} [\<lparr>ShortUrl = ''abc'', LongUrl = ''http://example.com'', LookedUpCount = 7\<rparr>] ''abc''
     = (Returned (- 1), [\<lparr>ShortUrl = ''abc'', LongUrl = ''http://example.com'', LookedUpCount = 7\<rparr>])"
  using get_stats_counter_or_sentinel [of "{}"
      "[\<lparr>ShortUrl = ''abc'', LongUrl = ''http://example.com'', LookedUpCount = 7\<rparr>]" "''abc''"
      "\<lparr>ShortUrl = ''abc'', LongUrl = ''http://example.com'', LookedUpCount = 7\<rparr>"]
    get_stats_counter_or_sentinel [of "{}"
      "[\<lparr>ShortUrl = ''abc'', LongUrl = ''http://example.com'', LookedUpCount = 7\<rparr>]" "''xyz''"
      "\<lparr>ShortUrl = ''abc'', LongUrl = ''http://example.com'', LookedUpCount = 7\<rparr>"]
    get_stats_counter_or_sentinel [of "{Execute 0}"
      "[\<lparr>ShortUrl = ''abc'', LongUrl = ''http://example.com'', LookedUpCount = 7\<rparr>]" "''abc''"
      "\<lparr>ShortUrl = ''abc'', LongUrl = ''http://example.com'', LookedUpCount = 7\<rparr>"]
  by (simp add: prod_eq_iff keys_unique_def)

section \<open>Properties of the client\<close>

subsection \<open>The retry loop and the backoff\<close>

declare retry_loop.simps [simp del]

lemma and_then_Inl [simp]: "and_then (Inl e) f = Inl e"
  by (simp add: and_then_def)

lemma and_then_Inr [simp]: "and_then (Inr v) f = f v"
  by (simp add: and_then_def)

lemma to_outcome_simps [simp]: "to_outcome (Inl e) = Raised e" "to_outcome (Inr v) = Returned v"
  by (simp_all add: to_outcome_def)

lemma retry_loop_Returned:
  "fn w = (Returned v, w') \<Longrightarrow>
   retry_loop fn n slept w = (\<lparr>result = Returned v, attempts = n, sleeps = slept\<rparr>, w')"
  by (subst retry_loop.simps) simp

lemma retry_loop_not_retried:
  "fn w = (Raised e, w') \<Longrightarrow> \<not> retry_if_exception_type e \<Longrightarrow>
   retry_loop fn n slept w = (\<lparr>result = Raised e, attempts = n, sleeps = slept\<rparr>, w')"
  by (subst retry_loop.simps) simp

lemma retry_loop_stopped:
  "fn w = (Raised e, w') \<Longrightarrow> retry_if_exception_type e \<Longrightarrow> 3 \<le> n \<Longrightarrow>
   retry_loop fn n slept w = (\<lparr>result = Raised e, attempts = n, sleeps = slept\<rparr>, w')"
  by (subst retry_loop.simps) (simp add: stop_after_attempt_def)

lemma retry_loop_again:
  "fn w = (Raised e, w') \<Longrightarrow> retry_if_exception_type e \<Longrightarrow> n < 3 \<Longrightarrow>
   retry_loop fn n slept w = retry_loop fn (n + 1) (slept @ [wait_exponential 1 2 30 n]) w'"
  by (subst retry_loop.simps) (simp add: stop_after_attempt_def)

lemma retry_loop_sleeps:
  "n \<le> attempts (fst (retry_loop fn n slept w)) \<and>
   sleeps (fst (retry_loop fn n slept w)) =
     slept @ map (wait_exponential 1 2 30) [n ..< attempts (fst (retry_loop fn n slept w))]"
proof (induction fn n slept w rule: retry_loop.induct)
  case (1 fn n slept w)
  obtain out w' where fw: "fn w = (out, w')" by (cases "fn w")
  show ?case
  proof (cases out)
    case (Returned v)
    with fw show ?thesis by (simp add: retry_loop_Returned)
  next
    case (Raised e)
    show ?thesis
    proof (cases "retry_if_exception_type e \<and> n < 3")
      case True
      then have again: "retry_loop fn n slept w =
          retry_loop fn (n + 1) (slept @ [wait_exponential 1 2 30 n]) w'"
        using fw Raised by (simp add: retry_loop_again)
      have IH: "n + 1 \<le> attempts (fst (retry_loop fn (n + 1) (slept @ [wait_exponential 1 2 30 n]) w')) \<and>
        sleeps (fst (retry_loop fn (n + 1) (slept @ [wait_exponential 1 2 30 n]) w')) =
         (slept @ [wait_exponential 1 2 30 n]) @ map (wait_exponential 1 2 30)
           [n + 1 ..< attempts (fst (retry_loop fn (n + 1) (slept @ [wait_exponential 1 2 30 n]) w'))]"
        using "1.IH"[of "Raised e" w' e] fw Raised True
        by (simp add: stop_after_attempt_def)
      then show ?thesis
        unfolding again by (simp add: upt_conv_Cons)
    next
      case False
      then have "retry_loop fn n slept w = (\<lparr>result = Raised e, attempts = n, sleeps = slept\<rparr>, w')"
        using fw Raised
        by (cases "retry_if_exception_type e") (simp_all add: retry_loop_not_retried retry_loop_stopped)
      then show ?thesis by simp
    qed
  qed
qed

lemma wait_exponential_step:
  "wait_exponential 1 2 30 n \<le> wait_exponential 1 2 30 (Suc n)"
proof -
  have pow: "(2::int) ^ (n - 1) \<le> 2 ^ (Suc n - 1)"
    by (rule power_increasing) simp_all
  have "max (max 0 2) (min (1 * a) 30) \<le> max (max 0 2) (min (1 * b) 30)" if "a \<le> b" for a b :: int
    using that by linarith
  from this [OF pow] show ?thesis
    unfolding wait_exponential_def .
qed

lemma wait_exponential_mono:
  "m \<le> n \<Longrightarrow> wait_exponential 1 2 30 m \<le> wait_exponential 1 2 30 n"
  by (rule lift_Suc_mono_le [of "wait_exponential 1 2 30"]) (simp_all add: wait_exponential_step)

lemma wait_exponential_cap: "wait_exponential 1 2 30 n \<le> 30"
  by (simp add: wait_exponential_def)

lemma sorted_waits: "sorted (map (wait_exponential 1 2 30) [a ..< b])"
proof -
  have "sorted_wrt (\<lambda>x y. wait_exponential 1 2 30 x \<le> wait_exponential 1 2 30 y) [a ..< b]"
    by (rule sorted_wrt_mono_rel [of _ "(\<le>)"]) (simp_all add: wait_exponential_mono)
  then show ?thesis by (simp add: sorted_map)
qed

subsection \<open>Responses with an error status\<close>

lemma requests_call_eq:
  "requests_call net req w =
     (case net (length (sent w)) req of Responded resp \<Rightarrow> Inr resp | Failed e \<Rightarrow> Inl e,
      w\<lparr>sent := sent w @ [req]\<rparr>)"
  by (simp add: requests_call_def split: transport_result.splits)

lemma subscript_error: "subscript v k = Inl e \<Longrightarrow> \<not> retry_if_exception_type e"
  by (cases v) (auto split: option.splits)

lemma safe_json_error: "safe_json resp = Inl e \<Longrightarrow> \<not> retry_if_exception_type e"
  by (auto simp: safe_json_def split: option.splits)

lemma message_error:
  assumes "\<And>msg. \<not> retry_if_exception_type (mk msg)"
  shows "\<exists>e. and_then (safe_json resp) (\<lambda>body.
           and_then (subscript body ''message'') (\<lambda>msg. Inl (mk msg))) = (Inl e :: exn + pyval) \<and>
         \<not> retry_if_exception_type e"
proof (cases "safe_json resp")
  case (Inl e)
  then show ?thesis using safe_json_error by simp
next
  case (Inr body)
  then show ?thesis
    using assms subscript_error [of body "''message''"]
    by (cases "subscript body ''message''") simp_all
qed

lemma body_then_error_status:
  assumes "status_code resp \<noteq> 200"
  shows "\<exists>e. body_then rt f resp = Inl e \<and> \<not> retry_if_exception_type e"
  using assms message_error [of "\<lambda>msg. HTTPError (err_msg rt resp msg)" resp]
  by (simp add: body_then_def cong: sum.case_cong)

lemma raise_for_status_error:
  "400 \<le> status_code resp \<Longrightarrow> status_code resp < 600 \<Longrightarrow>
   raise_for_status rt resp = Inl (HTTPError (http_error_message rt resp))"
  by (simp add: raise_for_status_def)

lemma labels_response_error_status:
  assumes "400 \<le> status_code resp" "status_code resp < 600"
  shows "\<exists>e. labels_response rt keys resp = Inl e \<and> \<not> retry_if_exception_type e"
  using assms message_error [of "\<lambda>msg. HTTPError (err_msg rt resp msg)" resp]
    message_error [of "\<lambda>msg. ValueError (py_str rt msg)" resp]
  by (auto simp: labels_response_def raise_for_status_error)

lemma validate_local_filename_error:
  "validate_local_filename fs name = Inl e \<Longrightarrow> \<not> retry_if_exception_type e"
  by (auto simp: validate_local_filename_def split: pyval.splits if_splits)

lemma read_file_error: "read_file fs name = Inl e \<Longrightarrow> \<not> retry_if_exception_type e"
  by (auto simp: read_file_def split: option.splits fs_node.splits)

lemma get_image_error_status:
  assumes "400 \<le> status_code resp" "status_code resp < 600"
    and "net (length (sent w)) \<lparr>http_method = ''GET'', url = build_url w (''/image/'' @ py_str rt assetid),
              params = [], json = None\<rparr> = Responded resp"
  shows "\<exists>e. fst (get_image rt net assetid local_filename w) = Raised e \<and> \<not> retry_if_exception_type e"
proof (cases "status_code resp \<in> {400, 500}")
  case True
  obtain e where e: "and_then (safe_json resp) (\<lambda>body.
           and_then (subscript body ''message'') (\<lambda>msg. Inl (ValueError (err_msg rt resp msg)))) = (Inl e :: exn + pyval)"
      "\<not> retry_if_exception_type e"
    using message_error [of "\<lambda>msg. ValueError (err_msg rt resp msg)" resp] by auto
  have "fst (get_image rt net assetid local_filename w) =
      to_outcome (and_then (safe_json resp) (\<lambda>body.
           and_then (subscript body ''message'') (\<lambda>msg. Inl (ValueError (err_msg rt resp msg)))))"
    using True assms(3) by (auto simp: get_image_def requests_call_eq)
  then show ?thesis
    using e by simp
next
  case False
  with assms show ?thesis
    by (auto simp: get_image_def requests_call_eq raise_for_status_error)
qed

lemma post_image_error_status:
  assumes "400 \<le> status_code resp" "status_code resp < 600"
    and "\<And>req. net (length (sent w)) req = Responded resp"
  shows "\<exists>e. fst (post_image rt net userid local_filename w) = Raised e \<and> \<not> retry_if_exception_type e"
proof (cases "validate_local_filename (files w) local_filename")
  case (Inl e)
  then show ?thesis
    using validate_local_filename_error by (simp add: post_image_def)
next
  case (Inr filename)
  show ?thesis
  proof (cases "read_file (files w) filename")
    case (Inl e)
    then show ?thesis
      using Inr read_file_error by (simp add: post_image_def)
  next
    case bytes: (Inr image_bytes)
    obtain e where "body_then rt (\<lambda>body. subscript body ''assetid'') resp = Inl e"
        "\<not> retry_if_exception_type e"
      using body_then_error_status [of resp rt] assms(1) by auto
    then show ?thesis
      using Inr bytes assms(3) by (simp add: post_image_def requests_call_eq)
  qed
qed

lemma attempt_error_status:
  assumes "400 \<le> status_code resp" "status_code resp < 600"
    and "\<And>req. net (length (sent w)) req = Responded resp"
  shows "\<exists>e. fst (attempt rt net c w) = Raised e \<and> \<not> retry_if_exception_type e"
proof (cases c)
  case GetPing
  obtain e where "body_then rt (\<lambda>body.
             and_then (subscript body ''M'') (\<lambda>M.
             and_then (subscript body ''N'') (\<lambda>N. Inr (PTuple [M, N])))) resp = Inl e"
        "\<not> retry_if_exception_type e"
    using body_then_error_status [of resp rt] assms(1) by auto
  then show ?thesis using GetPing assms(3) by (simp add: get_ping_def requests_call_eq)
next
  case GetUsers
  obtain e where "body_then rt (\<lambda>body.
             and_then (subscript body ''data'') (\<lambda>rows.
             collect_rows [''userid'', ''username'', ''givenname'', ''familyname''] rows)) resp = Inl e"
        "\<not> retry_if_exception_type e"
    using body_then_error_status [of resp rt] assms(1) by auto
  then show ?thesis using GetUsers assms(3) by (simp add: get_users_def requests_call_eq)
next
  case (GetImages userid)
  obtain e where "body_then rt (\<lambda>body.
             and_then (subscript body ''data'') (\<lambda>rows.
             collect_rows [''assetid'', ''userid'', ''localname'', ''bucketkey''] rows)) resp = Inl e"
        "\<not> retry_if_exception_type e"
    using body_then_error_status [of resp rt] assms(1) by auto
  then show ?thesis using GetImages assms(3) by (simp add: get_images_def requests_call_eq)
next
  case (PostImage userid local_filename)
  then show ?thesis
    using assms post_image_error_status [of resp net w rt] by simp
next
  case (GetImage assetid local_filename)
  then show ?thesis
    using assms get_image_error_status [of resp net w rt] by simp
next
  case (GetImageLabels assetid)
  obtain e where "labels_response rt [''label'', ''confidence''] resp = Inl e"
        "\<not> retry_if_exception_type e"
    using labels_response_error_status [OF assms(1,2)] by blast
  then show ?thesis using GetImageLabels assms(3) by (simp add: get_image_labels_def requests_call_eq)
next
  case (GetImagesWithLabel label)
  obtain e where "labels_response rt [''assetid'', ''label'', ''confidence''] resp = Inl e"
        "\<not> retry_if_exception_type e"
    using labels_response_error_status [OF assms(1,2)] by blast
  then show ?thesis using GetImagesWithLabel assms(3)
    by (simp add: get_images_with_label_def requests_call_eq)
next
  case DeleteImages
  obtain e where "body_then rt (\<lambda>body. Inr (PBool True)) resp = Inl e"
        "\<not> retry_if_exception_type e"
    using body_then_error_status [of resp rt] assms(1) by auto
  then show ?thesis using DeleteImages assms(3) by (simp add: delete_images_def requests_call_eq)
qed

subsection \<open>Requests sent\<close>

declare str_nat.simps [simp del]

lemmas client_defs = call_api_def retry_def get_ping_def get_users_def get_images_def post_image_def
  get_image_def get_image_labels_def get_images_with_label_def delete_images_def
  requests_call_def body_then_def labels_response_def safe_json_def err_msg_def str_int_def
  str_nat.simps digit_char_def build_url_def validate_local_filename_def read_file_def
  raise_for_status_def strip_def isspace_def isfile_def basename_def
  example_runtime_def collect_rows_def answering_def failing_def no_files_def

lemma attempt_sent:
  "sent (snd (attempt rt net c w)) = sent w \<or>
   (\<exists>req. sent (snd (attempt rt net c w)) = sent w @ [req])"
proof (cases c)
  case (PostImage userid local_filename)
  then show ?thesis
    by (auto simp: post_image_def requests_call_eq Let_def split: sum.splits)
next
  case (GetImage assetid local_filename)
  then show ?thesis
    by (auto simp: get_image_def requests_call_eq split: sum.splits transport_result.splits prod.splits)
qed (simp_all add: get_ping_def get_users_def get_images_def get_image_labels_def
      get_images_with_label_def delete_images_def requests_call_eq)

lemma attempt_sent_length:
  "length (sent w) \<le> length (sent (snd (attempt rt net c w))) \<and>
   length (sent (snd (attempt rt net c w))) \<le> length (sent w) + 1"
  using attempt_sent [of rt net c w] by auto



subsection \<open>Claims about the client\<close>

text \<open>
  C5. Claimed: when the transport answers \<^verbatim>\<open>get_image\<close> with status 400 and body
  \<^verbatim>\<open>{"message":"no such assetid"}\<close>, the operation raises \<^verbatim>\<open>ValueError\<close> whose message is
  exactly \<^verbatim>\<open>no such assetid\<close>, after one transport attempt. The attempt count holds: one
  request, one attempt, no sleep. The message does not: lines 468-477 build it as
  \<^verbatim>\<open>status code 400: no such assetid\<close>. The docstring of \<^verbatim>\<open>get_image\<close> names the error as
  \<^verbatim>\<open>ValueError, "no such assetid"\<close>, and \<^verbatim>\<open>get_image_labels\<close> raises the server's message
  unchanged on the same response, as the second half of the theorem shows.
\<close>

theorem get_image_400_message_prefixed:
  "call_api example_runtime
     (answering \<lparr>status_code = 400,
                          json_body = Some (PDict [(''message'', PStr ''no such assetid'')])\<rparr>)
     (GetImage (PInt 1014) PNone)
     \<lparr>WEB_SERVICE_URL = ''https://photoapp.example'', files = no_files, sent = []\<rparr>
   = (\<lparr>result = Raised (ValueError ''status code 400: no such assetid''), attempts = 1, sleeps = []\<rparr>,
      \<lparr>WEB_SERVICE_URL = ''https://photoapp.example'', files = no_files,
       sent = [\<lparr>http_method = ''GET'', url = ''https://photoapp.example/image/1014'',
                params = [], json = None\<rparr>]\<rparr>) \<and>
   fst (call_api example_runtime
     (answering \<lparr>status_code = 400,
                          json_body = Some (PDict [(''message'', PStr ''no such assetid'')])\<rparr>)
     (GetImageLabels (PInt 1014))
     \<lparr>WEB_SERVICE_URL = ''https://photoapp.example'', files = no_files, sent = []\<rparr>)
   = \<lparr>result = Raised (ValueError ''no such assetid''), attempts = 1, sleeps = []\<rparr>"
  by (simp add: client_defs retry_loop.simps)




text \<open>
  C7. An attempt that raises an exception other than \<^verbatim>\<open>ConnectionError\<close> and \<^verbatim>\<open>Timeout\<close>
  ends the call: the decorated operation raises that exception after exactly one attempt
  and no sleep, in the state the attempt left. This covers every response with an error
  status: when the server answers the request of any of the eight operations with a status
  from 400 to 599, the exception raised is not retryable, so one attempt is made. An attempt
  sends at most one request.
\<close>

theorem non_retryable_error_one_attempt:
  "(fst (attempt rt net c w) = Raised e \<and> \<not> retry_if_exception_type e \<longrightarrow>
      call_api rt net c w =
        (\<lparr>result = Raised e, attempts = 1, sleeps = []\<rparr>, snd (attempt rt net c w))) \<and>
   ((\<forall>req. net (length (sent w)) req = Responded resp) \<and>
    400 \<le> status_code resp \<and> status_code resp < 600 \<longrightarrow>
      (\<exists>e'. \<not> retry_if_exception_type e' \<and>
         call_api rt net c w =
           (\<lparr>result = Raised e', attempts = 1, sleeps = []\<rparr>, snd (attempt rt net c w)))) \<and>
   length (sent (snd (attempt rt net c w))) \<le> length (sent w) + 1"
proof -
  have one: "call_api rt net c w =
      (\<lparr>result = Raised x, attempts = 1, sleeps = []\<rparr>, snd (attempt rt net c w))"
    if "fst (attempt rt net c w) = Raised x" "\<not> retry_if_exception_type x" for x
  proof -
    from that(1) have "attempt rt net c w = (Raised x, snd (attempt rt net c w))"
      by (simp add: prod_eq_iff)
    then show ?thesis
      using that(2) unfolding call_api_def retry_def by (rule retry_loop_not_retried)
  qed
  have status: "\<exists>e'. \<not> retry_if_exception_type e' \<and>
         call_api rt net c w =
           (\<lparr>result = Raised e', attempts = 1, sleeps = []\<rparr>, snd (attempt rt net c w))"
    if "\<forall>req. net (length (sent w)) req = Responded resp"
      "400 \<le> status_code resp" "status_code resp < 600"
  proof -
    have "\<exists>x. fst (attempt rt net c w) = Raised x \<and> \<not> retry_if_exception_type x"
      using that by (intro attempt_error_status [of resp]) simp_all
    then obtain x where "fst (attempt rt net c w) = Raised x" "\<not> retry_if_exception_type x"
      by blast
    then show ?thesis using one by blast
  qed
  show ?thesis
    using one [of e] status attempt_sent_length [of w rt net c] by blast
qed

theorem non_retryable_error_one_attempt_witness:
  "call_api example_runtime
     (answering \<lparr>status_code = 500,
                          json_body = Some (PDict [(''message'', PStr ''database unreachable'')])\<rparr>)
     GetPing \<lparr>WEB_SERVICE_URL = ''https://photoapp.example'', files = no_files, sent = []\<rparr>
   = (\<lparr>result = Raised (HTTPError ''status code 500: database unreachable''), attempts = 1, sleeps = []\<rparr>,
      \<lparr>WEB_SERVICE_URL = ''https://photoapp.example'', files = no_files,
       sent = [\<lparr>http_method = ''GET'', url = ''https://photoapp.example/ping'', params = [], json = None\<rparr>]\<rparr>)"
proof -
  let ?net = "answering \<lparr>status_code = 500,
                          json_body = Some (PDict [(''message'', PStr ''database unreachable'')])\<rparr>"
  let ?w = "\<lparr>WEB_SERVICE_URL = ''https://photoapp.example'', files = no_files, sent = []\<rparr>"
  have run: "attempt example_runtime ?net GetPing ?w =
      (Raised (HTTPError ''status code 500: database unreachable''),
       \<lparr>WEB_SERVICE_URL = ''https://photoapp.example'', files = no_files,
        sent = [\<lparr>http_method = ''GET'', url = ''https://photoapp.example/ping'', params = [], json = None\<rparr>]\<rparr>)"
    by (simp add: client_defs)
  have raised: "fst (attempt example_runtime ?net GetPing ?w) =
      Raised (HTTPError ''status code 500: database unreachable'')"
    by (simp only: run fst_conv)
  have final: "\<not> retry_if_exception_type (HTTPError ''status code 500: database unreachable'')"
    by simp
  show ?thesis
    using non_retryable_error_one_attempt [of example_runtime ?net GetPing ?w
        "HTTPError ''status code 500: database unreachable''"
        "\<lparr>status_code = 500,
          json_body = Some (PDict [(''message'', PStr ''database unreachable'')])\<rparr>"] raised final
    by (simp only: run snd_conv simp_thms)
qed

text \<open>
  C8. Under the configured policy (multiplier 1, floor 2, ceiling 30) the wait after
  attempt \<open>n + 1\<close> is at least the wait after attempt \<open>n\<close>, no wait exceeds 30, and the
  delays slept in any call of a decorated operation are in non-decreasing order and
  at most 30 each.
\<close>

theorem backoff_nondecreasing_capped:
  "wait_exponential 1 2 30 n \<le> wait_exponential 1 2 30 (Suc n) \<and>
   wait_exponential 1 2 30 n \<le> 30 \<and>
   sorted (sleeps (fst (call_api rt net c w))) \<and>
   list_all (\<lambda>d. d \<le> 30) (sleeps (fst (call_api rt net c w)))"
proof -
  have "sleeps (fst (call_api rt net c w)) =
      map (wait_exponential 1 2 30) [1 ..< attempts (fst (call_api rt net c w))]"
    using retry_loop_sleeps [of 1 "attempt rt net c" "[]" w]
    by (simp add: call_api_def retry_def)
  then show ?thesis
    by (simp add: wait_exponential_step wait_exponential_cap sorted_waits list_all_iff)
qed

theorem backoff_nondecreasing_capped_witness:
  "wait_exponential 1 2 30 5 = 16 \<and> wait_exponential 1 2 30 (Suc 5) = 30 \<and>
   sleeps (fst (call_api example_runtime (failing Timeout) GetPing
      \<lparr>WEB_SERVICE_URL = ''https://photoapp.example'', files = no_files, sent = []\<rparr>)) = [2, 2]"
  using backoff_nondecreasing_capped [of 5 example_runtime "failing Timeout" GetPing
      "\<lparr>WEB_SERVICE_URL = ''https://photoapp.example'', files = no_files, sent = []\<rparr>"]
  by (simp add: client_defs retry_loop.simps wait_exponential_def stop_after_attempt_def)

end
